theory Spec2Isabelle
  imports Complex_Main "HOL-Library.Log_Nat"
begin

section \<open>Configuration\<close>

text \<open>
  The dictionary \<open>CONFIG\<close> loaded from \<open>config.json\<close>, with the keys the program reads.
  A Python float is the real number it stands for, and a Python string is the list of
  its bytes in UTF-8. The threshold and the volume samples only ever take part in
  comparisons, which are exact on floats. The arithmetic on the two scale factors is
  double-precision arithmetic; it is modelled in the section on floating-point numbers.
\<close>

record config =
  TARGET_APP :: string
  VOLUME_THRESHOLD :: real
  IMAGE_HIGH_VOLUME :: string
  IMAGE_LOW_VOLUME :: string
  MAX_IMAGE_SIZE :: int
  INCREASE_SIZE_KEY :: string
  DECREASE_SIZE_KEY :: string
  CLOSE_KEY :: string

definition DEFAULT_CONFIG :: config where
  "DEFAULT_CONFIG =
     \<lparr>TARGET_APP = ''EDCoPilot.exe'',
      VOLUME_THRESHOLD = 0.2,
      IMAGE_HIGH_VOLUME = ''640px-Neurofumo.png'',
      IMAGE_LOW_VOLUME = ''640px-Neurofumodark.png'',
      MAX_IMAGE_SIZE = 700,
      INCREASE_SIZE_KEY = ''Up'',
      DECREASE_SIZE_KEY = ''Down'',
      CLOSE_KEY = ''F4''\<rparr>"

section \<open>The volume monitor thread\<close>

text \<open>
  Everything \<open>VolumeMonitor.run\<close> does that another party can observe, in program order.
  \<open>Callback v\<close> is one call \<open>self.callback(v)\<close>; \<open>Sleep d\<close> is \<open>time.sleep\<close> of
  \<open>d\<close> milliseconds.
\<close>

datatype monitor_event =
    CoInitialize
  | CoUninitialize
  | Print string
  | Callback real
  | Sleep nat

text \<open>
  The place of control inside \<open>run\<close>: \<open>Searching\<close> is the head of the outer
  \<open>while self.running\<close> loop, \<open>Attached meter\<close> the head of the inner one with the meter
  that \<open>QueryInterface\<close> returned, \<open>Stopped\<close> the end of \<open>run\<close> after the
  \<open>finally\<close> block.
\<close>

datatype monitor_state = Searching | Attached nat | Stopped

text \<open>
  The thread object. \<open>running\<close> is the attribute of the source. \<open>clock\<close> is the
  thread's own time in milliseconds: the instant at which it evaluates its next loop test.
  Only \<open>time.sleep\<close> advances it; every other statement is taken to cost no time.
  \<open>trace\<close> collects the observable events so far.
\<close>

record VolumeMonitor =
  running :: bool
  pc :: monitor_state
  clock :: nat
  trace :: "monitor_event list"

text \<open>
  One entry of \<open>AudioUtilities.GetAllSessions()\<close>: \<open>Process\<close> is the name that
  \<open>session.Process.name()\<close> returns, or \<open>None\<close> for a session without a process;
  \<open>ctl\<close> identifies the meter that \<open>QueryInterface\<close> yields for the session.
\<close>

record session =
  Process :: "string option"
  ctl :: nat

text \<open>
  What the thread takes from outside the program: the sessions listed at a given
  instant; what \<open>GetPeakValue\<close> of a meter does at a given instant, where \<open>Inr v\<close>
  returns the peak \<open>v\<close> and \<open>Inl msg\<close> raises an exception whose text is \<open>msg\<close>; and
  Python's \<open>str.lower\<close>, whose Unicode case tables are not part of the program, so
  that it is a parameter here. Enumerating the sessions and reading a process name are
  taken to succeed.
\<close>

record audio =
  GetAllSessions :: "nat \<Rightarrow> session list"
  GetPeakValue :: "nat \<Rightarrow> nat \<Rightarrow> string + real"
  str_lower :: "string \<Rightarrow> string"

text \<open>
  The \<open>for session in sessions\<close> loop with its \<open>break\<close>: the first session that has a
  process whose lowered name equals the lowered target name; \<open>None\<close> when the loop ends
  without a match.
\<close>

fun find_target :: "audio \<Rightarrow> config \<Rightarrow> session list \<Rightarrow> session option" where
  "find_target au cfg [] = None"
| "find_target au cfg (s # sessions) =
     (case Process s of
        None \<Rightarrow> find_target au cfg sessions
      | Some name \<Rightarrow>
          if str_lower au name = str_lower au (TARGET_APP cfg) then Some s
          else find_target au cfg sessions)"

definition emit :: "monitor_event list \<Rightarrow> VolumeMonitor \<Rightarrow> VolumeMonitor" where
  "emit es m = m\<lparr>trace := trace m @ es\<rparr>"

text \<open>
  One pass of \<open>run\<close> from one loop test to the next.
  At \<open>Searching\<close> the outer test is evaluated: when \<open>running\<close> is false the loop ends
  and the \<open>finally\<close> block runs; otherwise the sessions are searched, and the thread
  either goes on to the inner loop or calls the callback with \<open>0.0\<close> and sleeps 15 s.
  At \<open>Attached\<close> the inner test is evaluated: when \<open>running\<close> is false control falls back
  to the outer test; otherwise the meter is read, the callback is called with the peak (or,
  in the \<open>except\<close> branch, the error is printed and the callback called with \<open>0.0\<close>),
  and the thread sleeps 0.1 s. The callback is recorded in the trace and is taken to
  return normally.
\<close>

definition step :: "audio \<Rightarrow> config \<Rightarrow> VolumeMonitor \<Rightarrow> VolumeMonitor" where
  "step au cfg m =
     (case pc m of
        Stopped \<Rightarrow> m
      | Searching \<Rightarrow>
          if \<not> running m then (emit [CoUninitialize] m)\<lparr>pc := Stopped\<rparr>
          else
            (case find_target au cfg (GetAllSessions au (clock m)) of
               Some target_session \<Rightarrow>
                 (emit [Print ''Searching for target application...'',
                        Print (''Target application '' @ TARGET_APP cfg @ '' found!'')] m)
                   \<lparr>pc := Attached (ctl target_session)\<rparr>
             | None \<Rightarrow>
                 (emit [Print ''Searching for target application...'',
                        Print (''Error: '' @ TARGET_APP cfg @ '' not found. Retrying in 15 seconds...''),
                        Callback 0,
                        Sleep 15000] m)
                   \<lparr>clock := clock m + 15000\<rparr>)
      | Attached meter \<Rightarrow>
          if \<not> running m then m\<lparr>pc := Searching\<rparr>
          else
            (case GetPeakValue au meter (clock m) of
               Inr peak_volume \<Rightarrow>
                 (emit [Callback peak_volume, Sleep 100] m)\<lparr>clock := clock m + 100\<rparr>
             | Inl exc \<Rightarrow>
                 (emit [Print (''Error fetching volume: '' @ exc), Callback 0, Sleep 100] m)
                   \<lparr>clock := clock m + 100\<rparr>))"

text \<open>\<open>VolumeMonitor.__init__\<close> followed by \<open>start\<close> at the instant \<open>now\<close>.\<close>

definition VolumeMonitor_start :: "nat \<Rightarrow> VolumeMonitor" where
  "VolumeMonitor_start now = \<lparr>running = True, pc = Searching, clock = now, trace = [CoInitialize]\<rparr>"

text \<open>\<open>VolumeMonitor.stop\<close>, called from another thread.\<close>

definition stop :: "VolumeMonitor \<Rightarrow> VolumeMonitor" where
  "stop m = m\<lparr>running := False\<rparr>"

text \<open>The values passed to the callback, in order.\<close>

fun samples :: "monitor_event list \<Rightarrow> real list" where
  "samples [] = []"
| "samples (Callback v # es) = v # samples es"
| "samples (e # es) = samples es"

text \<open>
  The thread left to itself until the instant \<open>deadline\<close>: it takes every pass whose loop
  test falls at or before \<open>deadline\<close>, and ends early when \<open>run\<close> has returned.
\<close>

definition rank :: "VolumeMonitor \<Rightarrow> nat" where
  "rank m =
     (case pc m of
        Stopped \<Rightarrow> 0
      | Searching \<Rightarrow> if running m then 3 else 1
      | Attached meter \<Rightarrow> 2)"

function run_until :: "audio \<Rightarrow> config \<Rightarrow> nat \<Rightarrow> VolumeMonitor \<Rightarrow> VolumeMonitor" where
  "run_until au cfg deadline m =
     (if pc m = Stopped \<or> deadline < clock m then m
      else run_until au cfg deadline (step au cfg m))"
  by pat_completeness auto
termination
  by (relation "measures [\<lambda>(au, cfg, deadline, m). Suc deadline - clock m,
                          \<lambda>(au, cfg, deadline, m). rank m]")
     (auto simp: step_def rank_def emit_def split: monitor_state.splits option.splits sum.splits)

declare run_until.simps [simp del]

text \<open>
  \<open>Thread.join(timeout)\<close> called at the instant \<open>now\<close> with \<open>timeout\<close> in
  milliseconds: the caller is blocked until the thread has ended or the timeout has passed,
  whichever comes first. The result is the thread as the caller finds it and the instant at
  which the caller goes on.
\<close>

definition join :: "audio \<Rightarrow> config \<Rightarrow> nat \<Rightarrow> nat \<Rightarrow> VolumeMonitor \<Rightarrow> VolumeMonitor \<times> nat" where
  "join au cfg now timeout m =
     (let m' = run_until au cfg (now + timeout) m
      in (m', if pc m' = Stopped \<and> clock m' \<le> now + timeout then max now (clock m')
              else now + timeout))"

section \<open>Floating-point numbers\<close>

text \<open>
  A double is a real number of the form \<open>m * 2 ^ q\<close> with an integer \<open>m\<close> of at most
  53 bits and \<open>q\<close> at least \<open>-1074\<close>. \<open>expo x\<close> is the binary exponent of a nonzero
  \<open>x\<close>, the \<open>e\<close> with \<open>2 ^ e \<le> \<bar>x\<bar> < 2 ^ (e + 1)\<close>, and \<open>quantum x\<close> is the distance
  between neighbouring doubles at \<open>x\<close>, with the subnormal range at the bottom.
\<close>

definition expo :: "real \<Rightarrow> int" where
  "expo x = (if 1 \<le> \<bar>x\<bar> then bitlen \<lfloor>\<bar>x\<bar>\<rfloor> - 1 else - bitlen (\<lceil>1 / \<bar>x\<bar>\<rceil> - 1))"

definition quantum :: "real \<Rightarrow> real" where
  "quantum x = 2 powi (max (expo x - 52) (- 1074))"

text \<open>The nearest integer, a tie going to the even one.\<close>

definition round_half_even :: "real \<Rightarrow> int" where
  "round_half_even y =
     (let f = \<lfloor>y\<rfloor>; d = y - of_int f
      in if d < 1 / 2 then f else if 1 / 2 < d then f + 1 else if even f then f else f + 1)"

text \<open>
  \<open>dbl x\<close> is the double nearest to \<open>x\<close>, a tie going to the even significand: the
  value of the float literal written \<open>x\<close>, and the result of a float operation whose
  exact result is \<open>x\<close>, so that \<open>a + b\<close> on floats is \<open>dbl (a + b)\<close>. Overflow to
  infinity is left out: the operands in this program stay below 4.
\<close>

definition dbl :: "real \<Rightarrow> real" where
  "dbl x = of_int (round_half_even (x / quantum x)) * quantum x"

text \<open>
  Python's \<open>round(x, ndigits)\<close> on a float: the exact value of \<open>x\<close> is rounded to the
  nearest multiple of \<open>10 ^ -ndigits\<close>, a tie going to the even one, and the result is
  the double nearest to that decimal number.
\<close>

definition py_round :: "real \<Rightarrow> nat \<Rightarrow> real" where
  "py_round x ndigits = dbl (of_int (round_half_even (x * 10 ^ ndigits)) / 10 ^ ndigits)"

section \<open>The overlay window\<close>

text \<open>
  The two pixmaps that \<open>App.__init__\<close> loads. \<open>QPixmap\<close> defines no equality, so the
  test \<open>self.current_image != new_image\<close> compares object identity: the two attributes
  are two objects, named here after the attributes that hold them.
\<close>

datatype pixmap = image_high_orig | image_low_orig

text \<open>
  What the window does that is visible from outside, in program order. \<open>SetPixmap p s\<close>
  is the body of \<open>resize_image\<close>: pixmap \<open>p\<close> scaled by the factor \<open>s\<close> is put on the
  label and the window is resized to it.
\<close>

datatype ui_event =
    Say string
  | QPixmap string
  | QTimer_start nat
  | Monitor_start
  | SetPixmap pixmap real
  | Accept

record App =
  current_image :: "pixmap option"
  scale :: real
  target_scale :: real
  monitor :: VolumeMonitor
  events :: "ui_event list"

text \<open>
  \<open>resize_image\<close> acts when \<open>self.current_image\<close> is true in a condition:
  \<open>None\<close> is false, and a pixmap object is taken to be true whatever it holds.
\<close>

definition resize_image :: "App \<Rightarrow> App" where
  "resize_image a =
     (case current_image a of
        None \<Rightarrow> a
      | Some p \<Rightarrow> a\<lparr>events := events a @ [SetPixmap p (scale a)]\<rparr>)"

definition update_image :: "config \<Rightarrow> real \<Rightarrow> App \<Rightarrow> App" where
  "update_image cfg volume a =
     (let new_image = (if VOLUME_THRESHOLD cfg < volume then image_high_orig else image_low_orig)
      in if current_image a \<noteq> Some new_image
         then resize_image (a\<lparr>current_image := Some new_image\<rparr>)
         else a)"

text \<open>
  In the four functions below every float literal and every float operation of the source
  goes through \<open>dbl\<close>; \<open>min\<close>, \<open>max\<close>, \<open>abs\<close>, the unary minus and the
  comparisons are exact on floats, and \<open>2.0\<close> is a double as it stands.
\<close>

definition adjust_scale :: "int \<Rightarrow> App \<Rightarrow> App" where
  "adjust_scale delta a =
     (if 0 < delta then a\<lparr>target_scale := min 2.0 (dbl (target_scale a + dbl 0.1))\<rparr>
      else a\<lparr>target_scale := max (dbl 0.1) (dbl (target_scale a - dbl 0.1))\<rparr>)"

definition increase_size :: "App \<Rightarrow> App" where
  "increase_size a = a\<lparr>target_scale := min 2.0 (dbl (target_scale a + dbl 0.1))\<rparr>"

definition decrease_size :: "App \<Rightarrow> App" where
  "decrease_size a = a\<lparr>target_scale := max (dbl 0.1) (dbl (target_scale a - dbl 0.1))\<rparr>"

definition animate_resize :: "App \<Rightarrow> App" where
  "animate_resize a =
     (if dbl 0.001 < \<bar>dbl (target_scale a - scale a)\<bar>
      then
        (let step = (if scale a < target_scale a then dbl 0.02 else - dbl 0.02)
         in resize_image (a\<lparr>scale := py_round (dbl (scale a + step)) 4\<rparr>))
      else a)"

text \<open>
  \<open>App.closeEvent\<close> at the instant \<open>now\<close>: the result is the window afterwards and the
  instant at which the handler returns.
\<close>

definition closeEvent :: "audio \<Rightarrow> config \<Rightarrow> nat \<Rightarrow> App \<Rightarrow> App \<times> nat" where
  "closeEvent au cfg now a =
     (let a1 = a\<lparr>events := events a @ [Say ''Shutting down application...'']\<rparr>;
          a2 = a1\<lparr>monitor := stop (monitor a1)\<rparr>;
          (m, t) = join au cfg now 2000 (monitor a2);
          a3 = a2\<lparr>monitor := m\<rparr>
      in (a3\<lparr>events := events a3 @ [Accept]\<rparr>, t))"

text \<open>
  \<open>App.__init__\<close> starts the monitor thread at line 146, sets \<open>self.current_image\<close> at
  line 149 and calls \<open>self.update_image(0.0)\<close> at line 150. How far the thread gets in
  the meantime is not decided by the program:
  \<^item> \<open>Passes n\<close>: the thread makes \<open>n\<close> passes of its loop between line 149 and line
    150 and none before; with \<open>Passes 0\<close> it has not called the callback when
    \<open>__init__\<close> delivers its own sample.
  \<^item> \<open>Too_early\<close>: the thread gets to its callback before line 149.
\<close>

datatype startup = Passes nat | Too_early

text \<open>
  The text of the exception that \<open>update_image\<close> raises at the test
  \<open>self.current_image != new_image\<close> while the attribute does not exist yet.
\<close>

definition AttributeError :: string where
  "AttributeError =
     [CHR 0x27] @ ''App'' @ [CHR 0x27] @ '' object has no attribute '' @
     [CHR 0x27] @ ''current_image'' @ [CHR 0x27]"

text \<open>
  The thread, at its first outer loop test, when every call of the callback raises
  \<open>AttributeError\<close>. Without a target session the call at line 73 raises and \<open>run\<close>
  ends through the \<open>finally\<close> block. With a target session the call at line 66 raises
  inside the \<open>try\<close>, the \<open>except\<close> branch prints the exception and calls the callback
  at line 69, which raises again, and \<open>run\<close> ends in the same way. A call that raises
  does so before \<open>update_image\<close> has changed anything.
\<close>

definition crashed :: "audio \<Rightarrow> config \<Rightarrow> VolumeMonitor \<Rightarrow> VolumeMonitor" where
  "crashed au cfg m =
     (case find_target au cfg (GetAllSessions au (clock m)) of
        None \<Rightarrow>
          (emit [Print ''Searching for target application...'',
                 Print (''Error: '' @ TARGET_APP cfg @ '' not found. Retrying in 15 seconds...''),
                 Callback 0,
                 CoUninitialize] m)
            \<lparr>pc := Stopped\<rparr>
      | Some target_session \<Rightarrow>
          (case GetPeakValue au (ctl target_session) (clock m) of
             Inr peak_volume \<Rightarrow>
               (emit [Print ''Searching for target application...'',
                      Print (''Target application '' @ TARGET_APP cfg @ '' found!''),
                      Callback peak_volume,
                      Print (''Error fetching volume: '' @ AttributeError),
                      Callback 0,
                      CoUninitialize] m)
                 \<lparr>pc := Stopped\<rparr>
           | Inl exc \<Rightarrow>
               (emit [Print ''Searching for target application...'',
                      Print (''Target application '' @ TARGET_APP cfg @ '' found!''),
                      Print (''Error fetching volume: '' @ exc),
                      Callback 0,
                      CoUninitialize] m)
                 \<lparr>pc := Stopped\<rparr>))"

text \<open>
  \<open>App.__init__\<close> with the monitor started at the instant \<open>now\<close>. \<open>exists\<close> is
  \<open>os.path.exists\<close>. The result is \<open>Inl (output, code)\<close> when \<open>sys.exit(code)\<close> ends
  the program, with what had been done until then, and \<open>Inr\<close> of the window otherwise.
  The samples that the thread delivers between line 149 and line 150 go through
  \<open>update_image\<close> before the sample of line 150 does.
\<close>

definition App_init ::
  "audio \<Rightarrow> config \<Rightarrow> (string \<Rightarrow> bool) \<Rightarrow> nat \<Rightarrow> startup \<Rightarrow> (ui_event list \<times> nat) + App" where
  "App_init au cfg exists now st =
     (if \<not> exists (IMAGE_HIGH_VOLUME cfg) \<or> \<not> exists (IMAGE_LOW_VOLUME cfg)
      then Inl ([Say ''Error: Image files not found.''], 1)
      else
        (let m = (case st of
                    Passes n \<Rightarrow> (step au cfg ^^ n) (VolumeMonitor_start now)
                  | Too_early \<Rightarrow> crashed au cfg (VolumeMonitor_start now));
             early = (case st of Passes n \<Rightarrow> samples (trace m) | Too_early \<Rightarrow> [])
         in Inr (update_image cfg 0
                  (foldl (\<lambda>w v. update_image cfg v w)
                     \<lparr>current_image = None,
                      scale = 1.0,
                      target_scale = 1.0,
                      monitor = m,
                      events = [QPixmap (IMAGE_HIGH_VOLUME cfg), QPixmap (IMAGE_LOW_VOLUME cfg),
                                QTimer_start 16, Monitor_start]\<rparr>
                     early))))"

text \<open>
  What reaches the window once it is shown: a sample from the monitor's callback, a tick
  of the animation timer, a turn of the wheel with its \<open>angleDelta().y()\<close>, and the two
  size keys.
\<close>

datatype ui_input = Sample real | Tick | Wheel int | Increase_key | Decrease_key

fun handle :: "config \<Rightarrow> App \<Rightarrow> ui_input \<Rightarrow> App" where
  "handle cfg a (Sample v) = update_image cfg v a"
| "handle cfg a Tick = animate_resize a"
| "handle cfg a (Wheel delta) = adjust_scale delta a"
| "handle cfg a Increase_key = increase_size a"
| "handle cfg a Decrease_key = decrease_size a"

section \<open>Notions of the specification\<close>



section \<open>Concrete situations\<close>

text \<open>
  A lowering function for the situations below: the ASCII letters \<open>A\<close> to \<open>Z\<close> move to
  \<open>a\<close> to \<open>z\<close> and every other byte stays. On ASCII strings, which is all that these
  situations contain, this is what \<open>str.lower\<close> does.
\<close>

definition ascii_lower_char :: "char \<Rightarrow> char" where
  "ascii_lower_char c =
     (let n = (of_char c :: nat) in if 65 \<le> n \<and> n \<le> 90 then char_of (n + 32) else c)"

definition ascii_lower :: "string \<Rightarrow> string" where
  "ascii_lower s = map ascii_lower_char s"

text \<open>No audio session at all: the target application is not running.\<close>

definition no_target :: audio where
  "no_target =
     \<lparr>GetAllSessions = (\<lambda>t. []),
      GetPeakValue = (\<lambda>meter t. Inl ''no meter''),
      str_lower = ascii_lower\<rparr>"

text \<open>Every path names an existing file.\<close>

definition every_file :: "string \<Rightarrow> bool" where
  "every_file path = True"

text \<open>
  A system session without process, then two sessions of the target application written
  in different cases. Meter 3 reports the peak 0.5 for the first 200 ms and fails from then
  on, as after the end of the session.
\<close>

definition studio :: audio where
  "studio =
     \<lparr>GetAllSessions =
        (\<lambda>t. [\<lparr>Process = None, ctl = 7\<rparr>,
              \<lparr>Process = Some ''Discord.exe'', ctl = 5\<rparr>,
              \<lparr>Process = Some ''EDCOPILOT.EXE'', ctl = 3\<rparr>,
              \<lparr>Process = Some ''edcopilot.exe'', ctl = 9\<rparr>]),
      GetPeakValue =
        (\<lambda>meter t. if meter = 3 \<and> t < 200 then Inr 0.5 else Inl ''session ended''),
      str_lower = ascii_lower\<rparr>"




text \<open>The window right after \<open>App.__init__\<close> with the default configuration at instant 0.\<close>

definition shown :: App where
  "shown =
     \<lparr>current_image = Some image_low_orig,
      scale = 1,
      target_scale = 1,
      monitor = \<lparr>running = True, pc = Searching, clock = 0, trace = [CoInitialize]\<rparr>,
      events = [QPixmap ''640px-Neurofumo.png'', QPixmap ''640px-Neurofumodark.png'',
                QTimer_start 16, Monitor_start, SetPixmap image_low_orig 1]\<rparr>"

section \<open>Properties of the floating-point operations\<close>

lemma expo_bounds:
  assumes "x \<noteq> 0"
  shows "2 powi (expo x) \<le> \<bar>x\<bar>" and "\<bar>x\<bar> < 2 powi (expo x + 1)"
proof -
  have both: "2 powi (expo x) \<le> \<bar>x\<bar> \<and> \<bar>x\<bar> < 2 powi (expo x + 1)"
  proof (cases "1 \<le> \<bar>x\<bar>")
    case True
    define n where "n = \<lfloor>\<bar>x\<bar>\<rfloor>"
    have n: "0 < n" using True by (simp add: n_def)
    have e: "expo x = bitlen n - 1" using True by (simp add: expo_def n_def)
    have b1: "1 \<le> bitlen n" using n by (simp add: bitlen_alt_def)
    from bitlen_bounds [OF n] have lo: "2 ^ nat (bitlen n - 1) \<le> n" and hi: "n < 2 ^ nat (bitlen n)"
      by simp_all
    have "(2::real) powi (expo x) = 2 ^ nat (bitlen n - 1)"
      using b1 by (simp add: e power_int_nonneg_exp)
    also have "\<dots> = of_int (2 ^ nat (bitlen n - 1))" by simp
    also have "\<dots> \<le> of_int n" using lo by (simp only: of_int_le_iff)
    also have "\<dots> \<le> \<bar>x\<bar>" by (simp add: n_def)
    finally have A: "2 powi (expo x) \<le> \<bar>x\<bar>" .
    from hi have "n + 1 \<le> 2 ^ nat (bitlen n)" by simp
    then have "real_of_int (n + 1) \<le> of_int (2 ^ nat (bitlen n))" by (simp only: of_int_le_iff)
    moreover have "\<bar>x\<bar> < of_int (n + 1)" by (simp add: n_def)
    moreover have "(2::real) powi (expo x + 1) = of_int (2 ^ nat (bitlen n))"
      using b1 by (simp add: e power_int_nonneg_exp)
    ultimately have "\<bar>x\<bar> < 2 powi (expo x + 1)" by simp
    with A show ?thesis by simp
  next
    case False
    define y where "y = 1 / \<bar>x\<bar>"
    define n where "n = \<lceil>y\<rceil> - 1"
    have x: "0 < \<bar>x\<bar>" "\<bar>x\<bar> < 1" using assms False by simp_all
    then have y: "1 < y" by (simp add: y_def)
    then have "2 \<le> \<lceil>y\<rceil>" by (simp add: le_ceiling_iff)
    then have n: "0 < n" by (simp add: n_def)
    have e: "expo x = - bitlen n" using False by (simp add: expo_def n_def y_def)
    have b1: "1 \<le> bitlen n" using n by (simp add: bitlen_alt_def)
    from bitlen_bounds [OF n] have lo: "2 ^ nat (bitlen n - 1) \<le> n" and hi: "n < 2 ^ nat (bitlen n)"
      by simp_all
    have ny: "of_int n < y" "y \<le> of_int n + 1"
      unfolding n_def by linarith+
    have "real_of_int (2 ^ nat (bitlen n - 1)) \<le> of_int n" using lo by (simp only: of_int_le_iff)
    then have "(2::real) ^ nat (bitlen n - 1) \<le> of_int n" by (simp only: of_int_power of_int_numeral)
    with ny(1) have ylo: "2 ^ nat (bitlen n - 1) < y" by linarith
    from hi have "n + 1 \<le> 2 ^ nat (bitlen n)" by simp
    then have "real_of_int (n + 1) \<le> of_int (2 ^ nat (bitlen n))" by (simp only: of_int_le_iff)
    then have "real_of_int n + 1 \<le> 2 ^ nat (bitlen n)" by (simp only: of_int_power of_int_numeral of_int_add of_int_1)
    with ny(2) have yhi: "y \<le> 2 ^ nat (bitlen n)" by linarith
    have xy: "\<bar>x\<bar> = 1 / y" by (simp add: y_def)
    have p1: "(2::real) powi (expo x) = 1 / 2 ^ nat (bitlen n)"
      using b1 by (simp add: e power_int_def field_simps)
    have p2: "(2::real) powi (expo x + 1) = 1 / 2 ^ nat (bitlen n - 1)"
    proof -
      have "(2::real) powi (expo x + 1) = 2 powi (- (bitlen n - 1))" by (simp add: e)
      also have "\<dots> = inverse (2 powi (bitlen n - 1))" by (rule power_int_minus)
      also have "\<dots> = inverse (2 ^ nat (bitlen n - 1))"
        using b1 by (simp add: power_int_nonneg_exp)
      finally show ?thesis by (simp add: inverse_eq_divide)
    qed
    have A: "2 powi (expo x) \<le> \<bar>x\<bar>"
      unfolding p1 xy using yhi y by (simp add: field_simps)
    have B: "\<bar>x\<bar> < 2 powi (expo x + 1)"
      unfolding p2 xy using ylo y by (simp add: field_simps)
    from A B show ?thesis by simp
  qed
  from both show "2 powi (expo x) \<le> \<bar>x\<bar>" and "\<bar>x\<bar> < 2 powi (expo x + 1)" by simp_all
qed

lemma expo_less:
  assumes "\<bar>x\<bar> < 2 powi e"
  shows "expo x < e \<or> x = 0"
proof (cases "x = 0")
  case False
  from expo_bounds(1) [OF False] assms have lt: "(2::real) powi (expo x) < 2 powi e" by simp
  have "expo x < e"
  proof (rule ccontr)
    assume "\<not> expo x < e"
    then have "(2::real) powi e \<le> 2 powi (expo x)" by (intro power_int_increasing) simp_all
    with lt show False by simp
  qed
  then show ?thesis by simp
qed simp

lemma round_half_even_error: "\<bar>of_int (round_half_even y) - y\<bar> \<le> 1 / 2"
  unfolding round_half_even_def Let_def by (auto simp: abs_le_iff)

lemma quantum_pos: "0 < quantum x"
  by (simp add: quantum_def zero_less_power_int)

lemma dbl_error: "\<bar>dbl x - x\<bar> \<le> quantum x / 2"
proof -
  have "dbl x - x = (of_int (round_half_even (x / quantum x)) - x / quantum x) * quantum x"
    using quantum_pos [of x] by (simp add: dbl_def field_simps)
  then have "\<bar>dbl x - x\<bar> = \<bar>of_int (round_half_even (x / quantum x)) - x / quantum x\<bar> * quantum x"
    using quantum_pos [of x] by (simp add: abs_mult)
  also have "\<dots> \<le> 1 / 2 * quantum x"
    using round_half_even_error [of "x / quantum x"] quantum_pos [of x]
    by (intro mult_right_mono) simp_all
  finally show ?thesis by simp
qed

lemma dbl_zero: "dbl 0 = 0"
  by (simp add: dbl_def round_half_even_def)

lemma quantum_small:
  assumes "\<bar>x\<bar> < 2 powi e" "- 1021 \<le> e"
  shows "quantum x \<le> 2 powi (e - 53) \<or> x = 0"
proof (cases "x = 0")
  case False
  with expo_less [OF assms(1)] have "expo x < e" by simp
  with assms(2) have "max (expo x - 52) (- 1074) \<le> e - 53" by simp
  then have "(2::real) powi (max (expo x - 52) (- 1074)) \<le> 2 powi (e - 53)"
    by (intro power_int_increasing) simp_all
  then show ?thesis by (simp add: quantum_def)
qed simp

lemma dbl_error_below_4: "\<bar>x\<bar> < 4 \<Longrightarrow> \<bar>dbl x - x\<bar> \<le> 1 / 2 ^ 52"
proof (cases "x = 0")
  case True
  then show ?thesis by (simp add: dbl_zero)
next
  case False
  assume "\<bar>x\<bar> < 4"
  then have "\<bar>x\<bar> < 2 powi 2" by simp
  from quantum_small [OF this] False have "quantum x \<le> 2 powi (2 - 53)" by simp
  then have "quantum x \<le> 1 / 2 ^ 51" by (simp add: power_int_minus field_simps)
  with dbl_error [of x] show ?thesis by simp
qed

lemma dbl_error_below_2: "\<bar>x\<bar> < 2 \<Longrightarrow> \<bar>dbl x - x\<bar> \<le> 1 / 2 ^ 53"
proof (cases "x = 0")
  case True
  then show ?thesis by (simp add: dbl_zero)
next
  case False
  assume "\<bar>x\<bar> < 2"
  then have "\<bar>x\<bar> < 2 powi 1" by simp
  from quantum_small [OF this] False have "quantum x \<le> 2 powi (1 - 53)" by simp
  then have "quantum x \<le> 1 / 2 ^ 52" by (simp add: power_int_minus field_simps)
  with dbl_error [of x] show ?thesis by simp
qed

lemma round_half_even_unique:
  assumes "\<bar>y - of_int n\<bar> < 1 / 2"
  shows "round_half_even y = n"
proof -
  from round_half_even_error [of y] assms
  have "\<bar>real_of_int (round_half_even y) - of_int n\<bar> < 1" by linarith
  then have "\<bar>real_of_int (round_half_even y - n)\<bar> < 1" by simp
  then have "\<bar>round_half_even y - n\<bar> < 1" by linarith
  then show ?thesis by simp
qed

lemma dbl_values:
  "dbl 1 = 1"
  "dbl (3 / 2) = 3 / 2"
  "dbl 0 = 0"
  "dbl (1 / 10) = 3602879701896397 / 36028797018963968"
  "dbl (1 + 3602879701896397 / 36028797018963968) = 2476979795053773 / 2251799813685248"
  "dbl (2476979795053773 / 2251799813685248 + 3602879701896397 / 36028797018963968)
     = 1351079888211149 / 1125899906842624"
  by code_simp+

lemma literal_bounds:
  "1 / 10 \<le> dbl (1 / 10)" "dbl (1 / 10) \<le> 1 / 10 + 1 / 10 ^ 17"
  "\<bar>dbl (2 / 100) - 2 / 100\<bar> \<le> 1 / 2 ^ 53"
  "0 < dbl (1 / 1000)" "dbl (1 / 1000) \<le> 1 / 1000 + 1 / 2 ^ 53"
proof -
  show "1 / 10 \<le> dbl (1 / 10)" "dbl (1 / 10) \<le> 1 / 10 + 1 / 10 ^ 17"
    by (simp_all add: dbl_values)
  show "\<bar>dbl (2 / 100) - 2 / 100\<bar> \<le> 1 / 2 ^ 53"
    by (rule dbl_error_below_2) simp
  have "\<bar>dbl (1 / 1000) - 1 / 1000\<bar> \<le> 1 / 2 ^ 53"
    by (rule dbl_error_below_2) simp
  then have "- (1 / 2 ^ 53) \<le> dbl (1 / 1000) - 1 / 1000" "dbl (1 / 1000) - 1 / 1000 \<le> 1 / 2 ^ 53"
    by (simp_all only: abs_le_iff) linarith+
  then show "0 < dbl (1 / 1000)" and "dbl (1 / 1000) \<le> 1 / 1000 + 1 / 2 ^ 53"
    by simp_all
qed

section \<open>Properties of the overlay window\<close>

lemma current_image_update_image:
  "current_image (update_image cfg v a) =
     Some (if VOLUME_THRESHOLD cfg < v then image_high_orig else image_low_orig)"
  by (simp add: update_image_def resize_image_def Let_def)

lemma App_init_default: "App_init no_target DEFAULT_CONFIG every_file 0 (Passes 0) = Inr shown"
  by (simp add: App_init_def DEFAULT_CONFIG_def shown_def update_image_def resize_image_def
      VolumeMonitor_start_def every_file_def)

text \<open>
  Claim C1. For every sample \<open>v\<close> handed to \<open>update_image\<close>, the image selected
  afterwards is the high-volume one exactly when \<open>v\<close> is strictly greater than the
  configured threshold, and the low-volume one exactly when it is not; a sample equal to
  the threshold selects the low-volume image.
\<close>

theorem update_image_selects:
  "(current_image (update_image cfg v a) = Some image_high_orig) = (VOLUME_THRESHOLD cfg < v)
   \<and> (current_image (update_image cfg v a) = Some image_low_orig) = (v \<le> VOLUME_THRESHOLD cfg)
   \<and> current_image (update_image cfg (VOLUME_THRESHOLD cfg) a) = Some image_low_orig"
  by (simp add: current_image_update_image not_less)

theorem update_image_selects_witness:
  "current_image (update_image DEFAULT_CONFIG 0.21 shown) = Some image_high_orig
   \<and> current_image (update_image DEFAULT_CONFIG 0.2 shown) = Some image_low_orig"
  using update_image_selects [of DEFAULT_CONFIG "0.21" shown]
    update_image_selects [of DEFAULT_CONFIG "0.2" shown]
  by (simp add: DEFAULT_CONFIG_def)

text \<open>
  Claim C6. When two consecutive samples select the same image (in particular when the
  same sample comes twice), the second call of \<open>update_image\<close> changes nothing at all:
  the selected image stays, and \<open>resize_image\<close> is not run again, so the two calls
  together put at most one pixmap on the label.
\<close>

theorem update_image_twice:
  assumes "(VOLUME_THRESHOLD cfg < v) = (VOLUME_THRESHOLD cfg < w)"
  shows "update_image cfg w (update_image cfg v a) = update_image cfg v a
    \<and> length (events (update_image cfg w (update_image cfg v a))) \<le> Suc (length (events a))"
  using assms by (simp add: update_image_def resize_image_def Let_def)

theorem update_image_twice_witness:
  "(VOLUME_THRESHOLD DEFAULT_CONFIG < 0.5) = (VOLUME_THRESHOLD DEFAULT_CONFIG < 0.9)
   \<and> update_image DEFAULT_CONFIG 0.9 (update_image DEFAULT_CONFIG 0.5 shown)
       = update_image DEFAULT_CONFIG 0.5 shown
   \<and> events (update_image DEFAULT_CONFIG 0.9 (update_image DEFAULT_CONFIG 0.5 shown))
       = events shown @ [SetPixmap image_high_orig 1]"
proof -
  have h: "(VOLUME_THRESHOLD DEFAULT_CONFIG < 0.5) = (VOLUME_THRESHOLD DEFAULT_CONFIG < 0.9)"
    by (simp add: DEFAULT_CONFIG_def)
  have e: "events (update_image DEFAULT_CONFIG 0.5 shown) = events shown @ [SetPixmap image_high_orig 1]"
    by (simp add: update_image_def resize_image_def DEFAULT_CONFIG_def shown_def)
  from update_image_twice [OF h, of shown] h e show ?thesis by simp
qed

lemma scale_resize_image: "scale (resize_image a) = scale a"
  by (simp add: resize_image_def split: option.splits)

lemma target_scale_resize_image: "target_scale (resize_image a) = target_scale a"
  by (simp add: resize_image_def split: option.splits)

lemma scale_update_image: "scale (update_image cfg v a) = scale a"
  by (simp add: update_image_def scale_resize_image Let_def)

lemma target_scale_update_image: "target_scale (update_image cfg v a) = target_scale a"
  by (simp add: update_image_def target_scale_resize_image Let_def)

lemma target_scale_animate_resize: "target_scale (animate_resize a) = target_scale a"
  by (simp add: animate_resize_def target_scale_resize_image Let_def)

lemma foldl_update_image_scales:
  "scale (foldl (\<lambda>w v. update_image cfg v w) a vs) = scale a
   \<and> target_scale (foldl (\<lambda>w v. update_image cfg v w) a vs) = target_scale a"
  by (induction vs arbitrary: a) (simp_all add: scale_update_image target_scale_update_image)

lemma target_scale_handle:
  "target_scale (handle cfg a e) = target_scale a
   \<or> target_scale (handle cfg a e) = min 2.0 (dbl (target_scale a + dbl 0.1))
   \<or> target_scale (handle cfg a e) = max (dbl 0.1) (dbl (target_scale a - dbl 0.1))"
  by (cases e)
     (simp_all add: adjust_scale_def increase_size_def decrease_size_def
        target_scale_update_image target_scale_animate_resize)

lemma increase_range:
  assumes "dbl 0.1 \<le> t" "t \<le> 2"
  shows "dbl 0.1 \<le> min 2.0 (dbl (t + dbl 0.1))"
    and "min 2.0 (dbl (t + dbl 0.1)) \<le> 2"
    and "\<bar>min 2.0 (dbl (t + dbl 0.1)) - t\<bar> \<le> 0.1 + 1 / 10 ^ 15"
proof -
  define c where "c = dbl (1 / 10)"
  have c: "1 / 10 \<le> c" "c \<le> 1 / 10 + 1 / 10 ^ 17"
    unfolding c_def by (rule literal_bounds)+
  have t: "c \<le> t" "t \<le> 2" using assms by (simp_all add: c_def)
  have "\<bar>t + c\<bar> < 4" using c t by (simp add: abs_less_iff)
  from dbl_error_below_4 [OF this]
  have e: "- (1 / 2 ^ 52) \<le> dbl (t + c) - (t + c)" "dbl (t + c) - (t + c) \<le> 1 / 2 ^ 52"
    by (simp_all only: abs_le_iff) linarith+
  have "c \<le> min 2 (dbl (t + c))" "min 2 (dbl (t + c)) \<le> 2"
    "\<bar>min 2 (dbl (t + c)) - t\<bar> \<le> 1 / 10 + 1 / 10 ^ 15"
    using c t e by (auto simp: min_def abs_le_iff)
  then show "dbl 0.1 \<le> min 2.0 (dbl (t + dbl 0.1))"
    and "min 2.0 (dbl (t + dbl 0.1)) \<le> 2"
    and "\<bar>min 2.0 (dbl (t + dbl 0.1)) - t\<bar> \<le> 0.1 + 1 / 10 ^ 15"
    by (simp_all add: c_def)
qed

lemma decrease_range:
  assumes "dbl 0.1 \<le> t" "t \<le> 2"
  shows "dbl 0.1 \<le> max (dbl 0.1) (dbl (t - dbl 0.1))"
    and "max (dbl 0.1) (dbl (t - dbl 0.1)) \<le> 2"
    and "\<bar>max (dbl 0.1) (dbl (t - dbl 0.1)) - t\<bar> \<le> 0.1 + 1 / 10 ^ 15"
proof -
  define c where "c = dbl (1 / 10)"
  have c: "1 / 10 \<le> c" "c \<le> 1 / 10 + 1 / 10 ^ 17"
    unfolding c_def by (rule literal_bounds)+
  have t: "c \<le> t" "t \<le> 2" using assms by (simp_all add: c_def)
  have "\<bar>t - c\<bar> < 4" using c t by (simp add: abs_less_iff)
  from dbl_error_below_4 [OF this]
  have e: "- (1 / 2 ^ 52) \<le> dbl (t - c) - (t - c)" "dbl (t - c) - (t - c) \<le> 1 / 2 ^ 52"
    by (simp_all only: abs_le_iff) linarith+
  have "c \<le> max c (dbl (t - c))" "max c (dbl (t - c)) \<le> 2"
    "\<bar>max c (dbl (t - c)) - t\<bar> \<le> 1 / 10 + 1 / 10 ^ 15"
    using c t e by (auto simp: max_def abs_le_iff)
  then show "dbl 0.1 \<le> max (dbl 0.1) (dbl (t - dbl 0.1))"
    and "max (dbl 0.1) (dbl (t - dbl 0.1)) \<le> 2"
    and "\<bar>max (dbl 0.1) (dbl (t - dbl 0.1)) - t\<bar> \<le> 0.1 + 1 / 10 ^ 15"
    by (simp_all add: c_def)
qed

lemma target_scale_handle_range:
  assumes "dbl 0.1 \<le> target_scale a" "target_scale a \<le> 2"
  shows "dbl 0.1 \<le> target_scale (handle cfg a e) \<and> target_scale (handle cfg a e) \<le> 2
    \<and> \<bar>target_scale (handle cfg a e) - target_scale a\<bar> \<le> 0.1 + 1 / 10 ^ 15"
  using target_scale_handle [of cfg a e] increase_range [OF assms] decrease_range [OF assms] assms
  by (elim disjE) (simp_all only:, simp_all)

lemma target_scale_foldl_range:
  "dbl 0.1 \<le> target_scale a \<Longrightarrow> target_scale a \<le> 2 \<Longrightarrow>
   dbl 0.1 \<le> target_scale (foldl (handle cfg) a es) \<and> target_scale (foldl (handle cfg) a es) \<le> 2"
proof (induction es arbitrary: a)
  case Nil
  then show ?case by simp
next
  case (Cons e es)
  from target_scale_handle_range [OF Cons.prems, of cfg e]
  have "dbl 0.1 \<le> target_scale (handle cfg a e)" "target_scale (handle cfg a e) \<le> 2"
    by blast+
  from Cons.IH [OF this] show ?case by simp
qed

lemma target_scale_App_init: "App_init au cfg exists now st = Inr a \<Longrightarrow> target_scale a = 1"
  by (auto simp: App_init_def Let_def target_scale_update_image foldl_update_image_scales
      split: if_splits)

text \<open>
  Claim C5, as the specification states it, fails in its last part. From the window as
  \<open>App.__init__\<close> leaves it, the first press of the increase key takes \<open>target_scale\<close>
  from 1.0 to the double 1.1, and the second takes it to the double 1.2000000000000002:
  a move of more than 0.1.
\<close>

theorem target_scale_step_counterexample:
  "App_init no_target DEFAULT_CONFIG every_file 0 (Passes 0) = Inr shown
   \<and> \<not> \<bar>target_scale (handle DEFAULT_CONFIG (foldl (handle DEFAULT_CONFIG) shown [Increase_key]) Increase_key)
         - target_scale (foldl (handle DEFAULT_CONFIG) shown [Increase_key])\<bar> \<le> 0.1"
proof (rule conjI)
  show "App_init no_target DEFAULT_CONFIG every_file 0 (Passes 0) = Inr shown"
    by (rule App_init_default)
  show "\<not> \<bar>target_scale (handle DEFAULT_CONFIG (foldl (handle DEFAULT_CONFIG) shown [Increase_key]) Increase_key)
         - target_scale (foldl (handle DEFAULT_CONFIG) shown [Increase_key])\<bar> \<le> 0.1"
    by code_simp
qed

text \<open>
  Claim C5, amended. From the window as \<open>App.__init__\<close> leaves it, after any sequence of
  wheel turns, size keys, timer ticks and samples, \<open>target_scale\<close> lies between 0.1 and
  2.0, and one more such event moves it by at most 0.1 up to the rounding of the float
  addition, that is by at most 0.1 + 1e-15.
\<close>

theorem target_scale_clamped:
  assumes "App_init au cfg exists now st = Inr a"
  shows "0.1 \<le> target_scale (foldl (handle cfg) a es)
    \<and> target_scale (foldl (handle cfg) a es) \<le> 2.0
    \<and> \<bar>target_scale (handle cfg (foldl (handle cfg) a es) e) - target_scale (foldl (handle cfg) a es)\<bar>
        \<le> 0.1 + 1 / 10 ^ 15"
proof -
  have c: "1 / 10 \<le> dbl (1 / 10)" "dbl (1 / 10) \<le> 1 / 10 + 1 / 10 ^ 17"
    by (rule literal_bounds)+
  from target_scale_App_init [OF assms] c
  have "dbl 0.1 \<le> target_scale a" "target_scale a \<le> 2" by simp_all
  from target_scale_foldl_range [OF this, of cfg es]
  have r: "dbl 0.1 \<le> target_scale (foldl (handle cfg) a es)" "target_scale (foldl (handle cfg) a es) \<le> 2"
    by blast+
  from target_scale_handle_range [OF r, of cfg e] r c show ?thesis by simp
qed

theorem target_scale_clamped_witness:
  "App_init no_target DEFAULT_CONFIG every_file 0 (Passes 0) = Inr shown
   \<and> 0.1 \<le> target_scale (foldl (handle DEFAULT_CONFIG) shown
        [Wheel (- 120), Decrease_key, Wheel 0, Decrease_key, Wheel (- 120), Decrease_key,
         Wheel (- 120), Decrease_key, Wheel (- 120), Decrease_key, Decrease_key])
   \<and> target_scale (foldl (handle DEFAULT_CONFIG) shown
        [Wheel 120, Increase_key, Wheel 120, Increase_key, Wheel 120, Increase_key,
         Wheel 120, Increase_key, Wheel 120, Increase_key, Increase_key]) \<le> 2.0
   \<and> \<bar>target_scale (handle DEFAULT_CONFIG (foldl (handle DEFAULT_CONFIG) shown [Increase_key]) Increase_key)
       - target_scale (foldl (handle DEFAULT_CONFIG) shown [Increase_key])\<bar> \<le> 0.1 + 1 / 10 ^ 15"
proof -
  note
    target_scale_clamped [OF App_init_default,
      of "[Wheel (- 120), Decrease_key, Wheel 0, Decrease_key, Wheel (- 120), Decrease_key,
           Wheel (- 120), Decrease_key, Wheel (- 120), Decrease_key, Decrease_key]" Increase_key]
    target_scale_clamped [OF App_init_default,
      of "[Wheel 120, Increase_key, Wheel 120, Increase_key, Wheel 120, Increase_key,
           Wheel 120, Increase_key, Wheel 120, Increase_key, Increase_key]" Increase_key]
    target_scale_clamped [OF App_init_default, of "[Increase_key]" Increase_key]
    App_init_default
  then show ?thesis by blast
qed

lemma dbl_near:
  assumes "\<bar>x\<bar> < 2"
  shows "x - 1 / 1000000000000000 \<le> dbl x" and "dbl x \<le> x + 1 / 1000000000000000"
proof -
  have "(1::real) / 2 ^ 53 \<le> 1 / 1000000000000000" by simp
  with dbl_error_below_2 [OF assms] have "\<bar>dbl x - x\<bar> \<le> 1 / 1000000000000000" by linarith
  then show "x - 1 / 1000000000000000 \<le> dbl x" and "dbl x \<le> x + 1 / 1000000000000000"
    by linarith+
qed

lemma py_round_step:
  assumes "k < 25"
  shows "py_round (dbl (dbl (1 + real k / 50) + dbl 0.02)) 4 = dbl (1 + real (Suc k) / 50)"
proof -
  define T where "T = 1 + real k / 50"
  define c where "c = dbl 0.02"
  define y where "y = dbl (dbl T + c)"
  define \<delta> where "\<delta> = y - (T + 1 / 50)"
  from assms have k: "real k \<le> 24" by simp
  have T: "1 \<le> T" "T \<le> 148 / 100" using k by (simp_all add: T_def)
  have "\<bar>T\<bar> < 2" using T by simp
  note s = dbl_near [OF this]
  have "\<bar>0.02 :: real\<bar> < 2" by simp
  note c = dbl_near [OF this, folded c_def]
  have "\<bar>dbl T + c\<bar> < 2" using T s c by (simp add: abs_less_iff)
  note y = dbl_near [OF this, folded y_def]
  have d: "- (3 / 1000000000000000) \<le> \<delta>" "\<delta> \<le> 3 / 1000000000000000"
    unfolding \<delta>_def using s c y by simp_all
  have "y * 10 ^ 4 - real_of_int (10000 + 200 * int (Suc k)) = \<delta> * 10000"
    by (simp add: \<delta>_def T_def field_simps)
  moreover have "\<bar>\<delta> * 10000\<bar> < 1 / 2" using d by (simp add: abs_less_iff)
  ultimately have "\<bar>y * 10 ^ 4 - real_of_int (10000 + 200 * int (Suc k))\<bar> < 1 / 2"
    by simp
  from round_half_even_unique [OF this]
  have "py_round y 4 = dbl (real_of_int (10000 + 200 * int (Suc k)) / 10 ^ 4)"
    by (simp add: py_round_def)
  also have "real_of_int (10000 + 200 * int (Suc k)) / 10 ^ 4 = 1 + real (Suc k) / 50"
    by (simp add: field_simps)
  finally show ?thesis by (simp add: y_def c_def T_def)
qed

lemma scale_near:
  assumes "k \<le> 25"
  shows "1 + real k / 50 - 1 / 1000000000000000 \<le> dbl (1 + real k / 50)"
    and "dbl (1 + real k / 50) \<le> 1 + real k / 50 + 1 / 1000000000000000"
proof -
  from assms have "real k \<le> 25" by simp
  then have "\<bar>1 + real k / 50\<bar> < 2" by (simp add: abs_less_iff)
  from dbl_near [OF this]
  show "1 + real k / 50 - 1 / 1000000000000000 \<le> dbl (1 + real k / 50)"
    and "dbl (1 + real k / 50) \<le> 1 + real k / 50 + 1 / 1000000000000000" .
qed

lemma scale_increases:
  assumes "k < 25"
  shows "dbl (1 + real k / 50) < dbl (1 + real (Suc k) / 50)"
    and "dbl (1 + real (Suc k) / 50) \<le> 3 / 2"
    and "dbl (1 + real k / 50) \<le> 148 / 100 + 1 / 1000000000000000"
proof -
  from assms have k: "real k \<le> 24" by simp
  have a: "dbl (1 + real k / 50) \<le> 1 + real k / 50 + 1 / 1000000000000000"
    using assms by (intro scale_near) simp
  have b: "1 + real (Suc k) / 50 - 1 / 1000000000000000 \<le> dbl (1 + real (Suc k) / 50)"
    using assms by (intro scale_near) simp
  have "1 + real k / 50 + 1 / 1000000000000000 < 1 + real (Suc k) / 50 - 1 / 1000000000000000"
    by (simp add: add_divide_distrib)
  with a b show "dbl (1 + real k / 50) < dbl (1 + real (Suc k) / 50)" by linarith
  show "dbl (1 + real k / 50) \<le> 148 / 100 + 1 / 1000000000000000"
    using a k by simp
  show "dbl (1 + real (Suc k) / 50) \<le> 3 / 2"
  proof (cases "Suc k = 25")
    case True
    then have "1 + real (Suc k) / 50 = 3 / 2" by simp
    then show ?thesis by (simp only: dbl_values)
  next
    case False
    with assms have "k \<le> 23" by simp
    then have "real k \<le> 23" by simp
    then have r: "real (Suc k) / 50 \<le> 24 / 50" by simp
    have "dbl (1 + real (Suc k) / 50) \<le> 1 + real (Suc k) / 50 + 1 / 1000000000000000"
      using assms by (intro scale_near) simp
    with r show ?thesis by linarith
  qed
qed

lemma far_from_target:
  assumes "k < 25"
  shows "dbl 0.001 < \<bar>dbl (3 / 2 - dbl (1 + real k / 50))\<bar>"
    and "0.001 < \<bar>3 / 2 - dbl (1 + real k / 50)\<bar>"
    and "dbl (1 + real k / 50) < 3 / 2"
proof -
  define d where "d = 3 / 2 - dbl (1 + real k / 50)"
  from assms have k: "0 \<le> real k" by simp
  have lo: "1 + real k / 50 - 1 / 1000000000000000 \<le> dbl (1 + real k / 50)"
    using assms by (intro scale_near) simp
  have d: "2 / 100 - 1 / 1000000000000000 \<le> d" "d \<le> 1 / 2 + 1 / 1000000000000000"
    unfolding d_def using scale_increases(3) [OF assms] lo k by simp_all
  then have "\<bar>d\<bar> < 2" by (simp add: abs_less_iff)
  note e = dbl_near [OF this]
  have "\<bar>0.001 :: real\<bar> < 2" by simp
  note l = dbl_near [OF this]
  have "dbl 0.001 < dbl d" using e(1) d(1) l(2) by simp
  then show "dbl 0.001 < \<bar>dbl (3 / 2 - dbl (1 + real k / 50))\<bar>"
    by (simp add: d_def)
  show "0.001 < \<bar>3 / 2 - dbl (1 + real k / 50)\<bar>"
    using d(1) by (simp add: d_def)
  show "dbl (1 + real k / 50) < 3 / 2"
    using d(1) by (simp add: d_def)
qed

lemma at_target: "\<not> dbl 0.001 < \<bar>dbl (3 / 2 - 3 / 2)\<bar>"
proof -
  have "\<bar>0.001 :: real\<bar> < 2" by simp
  from dbl_near(1) [OF this] have "0 < dbl 0.001" by simp
  then show ?thesis by (simp add: dbl_values)
qed

lemma float_examples:
  "dbl (1 + 7 / 50) \<noteq> dbl (dbl (1 + 6 / 50) + dbl 0.02)"
  "dbl (- (1 / 2)) = - (1 / 2)"
  "py_round (dbl (3 / 2 + - dbl 0.02)) 4 = dbl 1.48"
  by code_simp+

lemma animate_resize_far:
  assumes "dbl 0.001 < \<bar>dbl (target_scale b - scale b)\<bar>"
  shows "scale (animate_resize b) =
      py_round (dbl (scale b + (if scale b < target_scale b then dbl 0.02 else - dbl 0.02))) 4"
    and "target_scale (animate_resize b) = target_scale b"
  using assms by (simp_all add: animate_resize_def Let_def scale_resize_image target_scale_resize_image)

lemma animate_resize_near:
  "\<not> dbl 0.001 < \<bar>dbl (target_scale b - scale b)\<bar> \<Longrightarrow> animate_resize b = b"
  by (simp add: animate_resize_def)

lemma animate_resize_up:
  assumes "target_scale a = 3 / 2" "scale a = dbl (1 + real k / 50)" "k < 25"
  shows "scale (animate_resize a) = py_round (dbl (scale a + dbl 0.02)) 4"
    and "scale (animate_resize a) = dbl (1 + real (Suc k) / 50)"
    and "target_scale (animate_resize a) = 3 / 2"
proof -
  note f = far_from_target [OF assms(3)]
  have far: "dbl 0.001 < \<bar>dbl (target_scale a - scale a)\<bar>"
    unfolding assms(1,2) by (rule f(1))
  have lt: "scale a < target_scale a"
    unfolding assms(1,2) by (rule f(3))
  from animate_resize_far [OF far] lt
  show r: "scale (animate_resize a) = py_round (dbl (scale a + dbl 0.02)) 4"
    and "target_scale (animate_resize a) = 3 / 2"
    by (simp_all add: assms(1))
  show "scale (animate_resize a) = dbl (1 + real (Suc k) / 50)"
    unfolding r assms(2) by (rule py_round_step [OF assms(3)])
qed

lemma ticks_up:
  assumes "scale a = 1" "target_scale a = 3 / 2"
  shows "k \<le> 25 \<Longrightarrow>
     scale ((animate_resize ^^ k) a) = dbl (1 + real k / 50)
     \<and> target_scale ((animate_resize ^^ k) a) = 3 / 2"
proof (induction k)
  case 0
  show ?case using assms by (simp add: dbl_values)
next
  case (Suc k)
  then have ih: "scale ((animate_resize ^^ k) a) = dbl (1 + real k / 50)"
    "target_scale ((animate_resize ^^ k) a) = 3 / 2" and k: "k < 25" by simp_all
  from animate_resize_up(2,3) [OF ih(2) ih(1) k] show ?case by simp
qed

lemma ticks_rest:
  assumes "scale a = 1" "target_scale a = 3 / 2"
  shows "25 \<le> k \<Longrightarrow> (animate_resize ^^ k) a = (animate_resize ^^ 25) a"
proof (induction k)
  case 0
  then show ?case by simp
next
  case (Suc k)
  show ?case
  proof (cases "k = 24")
    case True
    then show ?thesis by simp
  next
    case False
    with Suc have eq: "(animate_resize ^^ k) a = (animate_resize ^^ 25) a" by simp
    from ticks_up [OF assms, of 25]
    have "scale ((animate_resize ^^ 25) a) = 3 / 2" "target_scale ((animate_resize ^^ 25) a) = 3 / 2"
      by (simp_all add: dbl_values)
    then have "\<not> dbl 0.001 < \<bar>dbl (target_scale ((animate_resize ^^ 25) a) - scale ((animate_resize ^^ 25) a))\<bar>"
      by (simp only: at_target not_False_eq_True)
    then have "animate_resize ((animate_resize ^^ 25) a) = (animate_resize ^^ 25) a"
      by (rule animate_resize_near)
    with eq show ?thesis by simp
  qed
qed

text \<open>
  Claim C4. Let \<open>scale\<close> be 1.0 and \<open>target_scale\<close> be 1.5. Each of the first 25 timer
  ticks finds the two more than 0.001 apart, replaces \<open>scale\<close> by the float sum
  \<open>scale + 0.02\<close> rounded to 4 decimal digits, which is the double written with these
  digits, 1.02, 1.04 and so on, and so brings \<open>scale\<close> strictly closer to
  \<open>target_scale\<close>. From the 25th tick on the distance is at most 0.001 and a tick
  changes nothing. In any window at all, a tick that finds the two more than 0.001 apart
  adds 0.02 when \<open>scale\<close> is below \<open>target_scale\<close> and subtracts 0.02 otherwise,
  and rounds the result to 4 decimal digits.
\<close>

theorem animate_resize_converges:
  assumes "scale a = 1.0" and "target_scale a = 1.5"
  shows "(\<forall>k<25.
            0.001 < \<bar>1.5 - scale ((animate_resize ^^ k) a)\<bar>
          \<and> scale ((animate_resize ^^ Suc k) a)
              = py_round (dbl (scale ((animate_resize ^^ k) a) + dbl 0.02)) 4
          \<and> scale ((animate_resize ^^ Suc k) a) = dbl (1 + real (Suc k) / 50)
          \<and> \<bar>1.5 - scale ((animate_resize ^^ Suc k) a)\<bar> < \<bar>1.5 - scale ((animate_resize ^^ k) a)\<bar>)
       \<and> (\<forall>k\<ge>25.
            \<bar>1.5 - scale ((animate_resize ^^ k) a)\<bar> \<le> 0.001
          \<and> animate_resize ((animate_resize ^^ k) a) = (animate_resize ^^ k) a)
       \<and> (\<forall>b::App. dbl 0.001 < \<bar>dbl (target_scale b - scale b)\<bar> \<longrightarrow>
            scale (animate_resize b)
              = py_round (dbl (scale b + (if scale b < target_scale b then dbl 0.02 else - dbl 0.02))) 4)"
proof (intro conjI allI impI)
  have s0: "scale a = 1" using assms(1) by simp
  have t: "target_scale a = 3 / 2" using assms(2) by simp
  note up = ticks_up [OF s0 t]
  note rest = ticks_rest [OF s0 t]
  {
    fix k :: nat
    assume k: "k < 25"
    then have s: "scale ((animate_resize ^^ k) a) = dbl (1 + real k / 50)"
      and tg: "target_scale ((animate_resize ^^ k) a) = 3 / 2"
      and s': "scale ((animate_resize ^^ Suc k) a) = dbl (1 + real (Suc k) / 50)"
      using up [of k] up [of "Suc k"] by simp_all
    note f = far_from_target [OF k]
    note i = scale_increases [OF k]
    show "0.001 < \<bar>1.5 - scale ((animate_resize ^^ k) a)\<bar>"
      unfolding s using f(2) by simp
    show "scale ((animate_resize ^^ Suc k) a)
              = py_round (dbl (scale ((animate_resize ^^ k) a) + dbl 0.02)) 4"
      using animate_resize_up(1) [OF tg s k] by simp
    show "scale ((animate_resize ^^ Suc k) a) = dbl (1 + real (Suc k) / 50)"
      by (rule s')
    have "\<bar>3 / 2 - dbl (1 + real (Suc k) / 50)\<bar> < \<bar>3 / 2 - dbl (1 + real k / 50)\<bar>"
      using i(1,2) f(3) by linarith
    then show "\<bar>1.5 - scale ((animate_resize ^^ Suc k) a)\<bar> < \<bar>1.5 - scale ((animate_resize ^^ k) a)\<bar>"
      unfolding s s' by simp
  }
  {
    fix k :: nat
    assume k: "25 \<le> k"
    have e: "(animate_resize ^^ k) a = (animate_resize ^^ 25) a" by (rule rest [OF k])
    have s25: "scale ((animate_resize ^^ 25) a) = 3 / 2" "target_scale ((animate_resize ^^ 25) a) = 3 / 2"
      using up [of 25] by (simp_all add: dbl_values)
    show "\<bar>1.5 - scale ((animate_resize ^^ k) a)\<bar> \<le> 0.001"
      unfolding e s25 by simp
    have "\<not> dbl 0.001 < \<bar>dbl (target_scale ((animate_resize ^^ 25) a) - scale ((animate_resize ^^ 25) a))\<bar>"
      unfolding s25 by (rule at_target)
    then show "animate_resize ((animate_resize ^^ k) a) = (animate_resize ^^ k) a"
      unfolding e by (rule animate_resize_near)
  }
  {
    fix b :: App
    assume "dbl 0.001 < \<bar>dbl (target_scale b - scale b)\<bar>"
    then show "scale (animate_resize b)
              = py_round (dbl (scale b + (if scale b < target_scale b then dbl 0.02 else - dbl 0.02))) 4"
      by (rule animate_resize_far)
  }
qed

theorem animate_resize_converges_witness:
  "scale (shown\<lparr>target_scale := 1.5\<rparr>) = 1.0
   \<and> target_scale (shown\<lparr>target_scale := 1.5\<rparr>) = 1.5
   \<and> scale ((animate_resize ^^ Suc 0) (shown\<lparr>target_scale := 1.5\<rparr>)) = dbl (1 + real (Suc 0) / 50)
   \<and> \<bar>1.5 - scale ((animate_resize ^^ Suc 0) (shown\<lparr>target_scale := 1.5\<rparr>))\<bar>
       < \<bar>1.5 - scale ((animate_resize ^^ 0) (shown\<lparr>target_scale := 1.5\<rparr>))\<bar>
   \<and> scale ((animate_resize ^^ Suc 6) (shown\<lparr>target_scale := 1.5\<rparr>))
       = py_round (dbl (scale ((animate_resize ^^ 6) (shown\<lparr>target_scale := 1.5\<rparr>)) + dbl 0.02)) 4
   \<and> scale ((animate_resize ^^ Suc 6) (shown\<lparr>target_scale := 1.5\<rparr>))
       \<noteq> dbl (scale ((animate_resize ^^ 6) (shown\<lparr>target_scale := 1.5\<rparr>)) + dbl 0.02)
   \<and> \<bar>1.5 - scale ((animate_resize ^^ 25) (shown\<lparr>target_scale := 1.5\<rparr>))\<bar> \<le> 0.001
   \<and> animate_resize ((animate_resize ^^ 25) (shown\<lparr>target_scale := 1.5\<rparr>))
       = (animate_resize ^^ 25) (shown\<lparr>target_scale := 1.5\<rparr>)
   \<and> dbl 0.001 < \<bar>dbl (target_scale (shown\<lparr>scale := 1.5\<rparr>) - scale (shown\<lparr>scale := 1.5\<rparr>))\<bar>
   \<and> scale (animate_resize (shown\<lparr>scale := 1.5\<rparr>)) = dbl 1.48"
proof -
  let ?A = "shown\<lparr>target_scale := 1.5\<rparr>"
  let ?B = "shown\<lparr>scale := 1.5\<rparr>"
  have h: "scale ?A = 1.0" "target_scale ?A = 1.5"
    by (simp_all add: shown_def)
  have n: "0 < (25::nat)" "5 < (25::nat)" "6 < (25::nat)" "(25::nat) \<le> 25" by simp_all
  note w = animate_resize_converges [OF h]
  from w n(1) have w0:
    "scale ((animate_resize ^^ Suc 0) ?A) = dbl (1 + real (Suc 0) / 50)"
    "\<bar>1.5 - scale ((animate_resize ^^ Suc 0) ?A)\<bar> < \<bar>1.5 - scale ((animate_resize ^^ 0) ?A)\<bar>"
    by blast+
  from w n(2) have w5: "scale ((animate_resize ^^ Suc 5) ?A) = dbl (1 + real (Suc 5) / 50)"
    by blast
  from w n(3) have w6:
    "scale ((animate_resize ^^ Suc 6) ?A)
       = py_round (dbl (scale ((animate_resize ^^ 6) ?A) + dbl 0.02)) 4"
    "scale ((animate_resize ^^ Suc 6) ?A) = dbl (1 + real (Suc 6) / 50)"
    by blast+
  from w n(4) have w25:
    "\<bar>1.5 - scale ((animate_resize ^^ 25) ?A)\<bar> \<le> 0.001"
    "animate_resize ((animate_resize ^^ 25) ?A) = (animate_resize ^^ 25) ?A"
    by blast+
  have l: "dbl 0.001 \<le> 0.001 + 1 / 1000000000000000"
    by (rule dbl_near) simp
  have far: "dbl 0.001 < \<bar>dbl (target_scale ?B - scale ?B)\<bar>"
    using l by (simp add: shown_def float_examples)
  from w far have wb:
    "scale (animate_resize ?B)
       = py_round (dbl (scale ?B + (if scale ?B < target_scale ?B then dbl 0.02 else - dbl 0.02))) 4"
    by blast
  have s6: "scale ((animate_resize ^^ 6) ?A) = dbl (1 + 6 / 50)"
    using w5 by (simp add: eval_nat_numeral)
  have s7: "scale ((animate_resize ^^ Suc 6) ?A) = dbl (1 + 7 / 50)"
    using w6(2) by simp
  have ne: "scale ((animate_resize ^^ Suc 6) ?A) \<noteq> dbl (scale ((animate_resize ^^ 6) ?A) + dbl 0.02)"
    unfolding s6 s7 by (rule float_examples(1))
  have down: "scale (animate_resize ?B) = dbl 1.48"
    unfolding wb using float_examples(3) by (simp add: shown_def)
  from h w0 w6(1) ne w25 far down show ?thesis by blast
qed

text \<open>
  Claim C9. When the high-volume or the low-volume image file does not exist,
  \<open>App.__init__\<close> prints the diagnostic and leaves the program with exit code 1; until
  then it has loaded no pixmap and has not started the monitor.
\<close>

theorem App_init_image_missing:
  assumes "\<not> exists (IMAGE_HIGH_VOLUME cfg) \<or> \<not> exists (IMAGE_LOW_VOLUME cfg)"
  shows "App_init au cfg exists now st = Inl ([Say ''Error: Image files not found.''], 1)"
  using assms by (auto simp: App_init_def)

theorem App_init_image_missing_witness:
  "\<not> (\<lambda>path. path = ''640px-Neurofumo.png'') (IMAGE_LOW_VOLUME DEFAULT_CONFIG)
   \<and> App_init no_target DEFAULT_CONFIG (\<lambda>path. path = ''640px-Neurofumo.png'') 0 (Passes 0)
       = Inl ([Say ''Error: Image files not found.''], 1)"
proof -
  have h: "\<not> (\<lambda>path. path = ''640px-Neurofumo.png'') (IMAGE_LOW_VOLUME DEFAULT_CONFIG)"
    by (simp add: DEFAULT_CONFIG_def)
  from App_init_image_missing
    [of "\<lambda>path. path = ''640px-Neurofumo.png''" DEFAULT_CONFIG no_target 0 "Passes 0"] h
  show ?thesis by blast
qed

section \<open>Properties of the volume monitor\<close>


lemma samples_append: "samples (xs @ ys) = samples xs @ samples ys"
  by (induction xs rule: samples.induct) simp_all

lemma step_searching_absent:
  assumes "pc m = Searching" "running m" "find_target au cfg (GetAllSessions au (clock m)) = None"
  shows "step au cfg m =
     m\<lparr>trace := trace m @
          [Print ''Searching for target application...'',
           Print (''Error: '' @ TARGET_APP cfg @ '' not found. Retrying in 15 seconds...''),
           Callback 0, Sleep 15000],
       clock := clock m + 15000\<rparr>"
  using assms by (simp add: step_def emit_def)

lemma step_searching_found:
  assumes "pc m = Searching" "running m" "find_target au cfg (GetAllSessions au (clock m)) = Some s"
  shows "step au cfg m =
     m\<lparr>trace := trace m @
          [Print ''Searching for target application...'',
           Print (''Target application '' @ TARGET_APP cfg @ '' found!'')],
       pc := Attached (ctl s)\<rparr>"
  using assms by (simp add: step_def emit_def)

lemma step_attached:
  assumes "pc m = Attached meter" "running m"
  shows "pc (step au cfg m) = Attached meter"
    and "running (step au cfg m)"
    and "clock (step au cfg m) = clock m + 100"
    and "samples (trace (step au cfg m)) =
           samples (trace m) @ [case GetPeakValue au meter (clock m) of Inr v \<Rightarrow> v | Inl e \<Rightarrow> 0]"
  using assms by (simp_all add: step_def emit_def samples_append split: sum.splits)

lemma steps_attached:
  assumes "pc m = Attached meter" "running m"
  shows "pc ((step au cfg ^^ n) m) = Attached meter
    \<and> running ((step au cfg ^^ n) m)
    \<and> clock ((step au cfg ^^ n) m) = clock m + 100 * n
    \<and> samples (trace ((step au cfg ^^ n) m)) =
        samples (trace m) @
        map (\<lambda>i. case GetPeakValue au meter (clock m + 100 * i) of Inr v \<Rightarrow> v | Inl e \<Rightarrow> 0) [0..<n]"
proof (induction n)
  case 0
  show ?case using assms by simp
next
  case (Suc n)
  then have ih: "pc ((step au cfg ^^ n) m) = Attached meter" "running ((step au cfg ^^ n) m)"
    "clock ((step au cfg ^^ n) m) = clock m + 100 * n"
    "samples (trace ((step au cfg ^^ n) m)) =
        samples (trace m) @
        map (\<lambda>i. case GetPeakValue au meter (clock m + 100 * i) of Inr v \<Rightarrow> v | Inl e \<Rightarrow> 0) [0..<n]"
    by simp_all
  from step_attached [OF ih(1,2), of au cfg] ih(3,4) show ?case by simp
qed

lemma running_step: "running (step au cfg m) = running m"
  by (simp add: step_def emit_def split: monitor_state.splits option.splits sum.splits)

lemma running_run_until: "running (run_until au cfg d m) = running m"
  by (induction au cfg d m rule: run_until.induct) (subst run_until.simps, simp add: running_step)

lemma run_until_asleep: "d < clock m \<Longrightarrow> run_until au cfg d m = m"
  by (subst run_until.simps) simp

lemma run_until_Stopped: "pc m = Stopped \<Longrightarrow> run_until au cfg d m = m"
  by (subst run_until.simps) simp

lemma run_until_step:
  "pc m \<noteq> Stopped \<Longrightarrow> clock m \<le> d \<Longrightarrow> run_until au cfg d m = run_until au cfg d (step au cfg m)"
  by (subst run_until.simps) simp

lemma run_until_not_running:
  assumes "\<not> running m" "pc m \<noteq> Stopped" "clock m \<le> d"
  shows "run_until au cfg d m = m\<lparr>trace := trace m @ [CoUninitialize], pc := Stopped\<rparr>"
proof (cases "pc m")
  case Searching
  then have "step au cfg m = m\<lparr>trace := trace m @ [CoUninitialize], pc := Stopped\<rparr>"
    using assms by (simp add: step_def emit_def)
  with run_until_step [OF assms(2,3), of au cfg] show ?thesis
    by (simp add: run_until_Stopped)
next
  case (Attached meter)
  then have s1: "step au cfg m = m\<lparr>pc := Searching\<rparr>"
    using assms by (simp add: step_def)
  have s2: "step au cfg (m\<lparr>pc := Searching\<rparr>) = m\<lparr>trace := trace m @ [CoUninitialize], pc := Stopped\<rparr>"
    using assms by (simp add: step_def emit_def)
  have "run_until au cfg d m = run_until au cfg d (m\<lparr>pc := Searching\<rparr>)"
    using run_until_step [OF assms(2,3), of au cfg] s1 by simp
  also have "\<dots> = run_until au cfg d (step au cfg (m\<lparr>pc := Searching\<rparr>))"
    using assms by (intro run_until_step) simp_all
  finally show ?thesis by (simp add: s2 run_until_Stopped)
next
  case Stopped
  with assms show ?thesis by simp
qed

lemma ascii_lower_examples:
  "ascii_lower ''EDCoPilot.exe'' = ''edcopilot.exe''"
  "ascii_lower ''EDCOPILOT.EXE'' = ''edcopilot.exe''"
  "ascii_lower ''Discord.exe'' = ''discord.exe''"
  by code_simp+

lemma find_target_studio:
  "find_target studio DEFAULT_CONFIG (GetAllSessions studio t) = Some \<lparr>Process = Some ''EDCOPILOT.EXE'', ctl = 3\<rparr>"
  by (simp add: studio_def DEFAULT_CONFIG_def ascii_lower_examples)



lemma find_target_no_target: "find_target au cfg (GetAllSessions no_target t) = None"
  by (simp add: no_target_def)




lemma step_attached_failure:
  assumes "pc m = Attached meter" "running m" "GetPeakValue au meter (clock m) = Inl exc"
  shows "step au cfg m =
     m\<lparr>trace := trace m @ [Print (''Error fetching volume: '' @ exc), Callback 0, Sleep 100],
       clock := clock m + 100\<rparr>"
  using assms by (simp add: step_def emit_def)

lemma map_failures:
  assumes "\<forall>i<n. \<exists>exc. GetPeakValue au meter (c + 100 * i) = Inl exc"
  shows "map (\<lambda>i. case GetPeakValue au meter (c + 100 * i) of Inr v \<Rightarrow> v | Inl e \<Rightarrow> 0) [0..<n]
           = replicate n (0::real)"
proof (rule nth_equalityI)
  show "length (map (\<lambda>i. case GetPeakValue au meter (c + 100 * i) of Inr v \<Rightarrow> v | Inl e \<Rightarrow> 0) [0..<n])
          = length (replicate n (0::real))"
    by simp
next
  fix i
  assume "i < length (map (\<lambda>i. case GetPeakValue au meter (c + 100 * i) of Inr v \<Rightarrow> v | Inl e \<Rightarrow> 0) [0..<n])"
  then have i: "i < n" by simp
  with assms obtain exc where "GetPeakValue au meter (c + 100 * i) = Inl exc" by blast
  with i show "map (\<lambda>i. case GetPeakValue au meter (c + 100 * i) of Inr v \<Rightarrow> v | Inl e \<Rightarrow> 0) [0..<n] ! i
          = replicate n (0::real) ! i"
    by simp
qed

text \<open>
  Claim C3. At the inner loop test with \<open>running\<close> set, a failing meter read makes the
  pass print the error, call the callback with 0.0 and sleep 0.1 s like any other pass.
  However many passes follow, and however many of the reads fail, as long as nobody calls
  \<open>stop\<close> the monitor is at the inner loop test again after each of them, 0.1 s after
  the one before, with the same meter: it never goes back to searching. When the first
  \<open>n\<close> reads all fail, the callback has received \<open>n\<close> times 0.0.
\<close>

theorem attached_read_failure:
  assumes "pc m = Attached meter" and "running m"
  shows "(\<forall>exc. GetPeakValue au meter (clock m) = Inl exc \<longrightarrow>
            step au cfg m =
              m\<lparr>trace := trace m @ [Print (''Error fetching volume: '' @ exc), Callback 0.0, Sleep 100],
                clock := clock m + 100\<rparr>)
    \<and> (\<forall>n. pc ((step au cfg ^^ n) m) = Attached meter
           \<and> running ((step au cfg ^^ n) m)
           \<and> clock ((step au cfg ^^ n) m) = clock m + 100 * n)
    \<and> (\<forall>n. (\<forall>i<n. \<exists>exc. GetPeakValue au meter (clock m + 100 * i) = Inl exc) \<longrightarrow>
           samples (trace ((step au cfg ^^ n) m)) = samples (trace m) @ replicate n 0.0)"
proof (intro conjI allI impI)
  fix exc
  assume "GetPeakValue au meter (clock m) = Inl exc"
  from step_attached_failure [OF assms this, of cfg]
  show "step au cfg m =
     m\<lparr>trace := trace m @ [Print (''Error fetching volume: '' @ exc), Callback 0.0, Sleep 100],
       clock := clock m + 100\<rparr>"
    by simp
next
  fix n
  note steps_attached [OF assms, where au = au and cfg = cfg and n = n]
  then show "pc ((step au cfg ^^ n) m) = Attached meter"
    and "running ((step au cfg ^^ n) m)"
    and "clock ((step au cfg ^^ n) m) = clock m + 100 * n"
    by simp_all
next
  fix n
  assume "\<forall>i<n. \<exists>exc. GetPeakValue au meter (clock m + 100 * i) = Inl exc"
  from map_failures [OF this] steps_attached [OF assms, where au = au and cfg = cfg and n = n]
  show "samples (trace ((step au cfg ^^ n) m)) = samples (trace m) @ replicate n 0.0"
    by simp
qed

theorem attached_read_failure_witness:
  "pc (VolumeMonitor_start 0\<lparr>pc := Attached 3, clock := 200\<rparr>) = Attached 3
   \<and> running (VolumeMonitor_start 0\<lparr>pc := Attached 3, clock := 200\<rparr>)
   \<and> GetPeakValue studio 3 200 = Inl ''session ended''
   \<and> step studio DEFAULT_CONFIG (VolumeMonitor_start 0\<lparr>pc := Attached 3, clock := 200\<rparr>)
       = \<lparr>running = True, pc = Attached 3, clock = 300,
          trace = [CoInitialize, Print ''Error fetching volume: session ended'', Callback 0.0, Sleep 100]\<rparr>
   \<and> pc ((step studio DEFAULT_CONFIG ^^ 3) (VolumeMonitor_start 0\<lparr>pc := Attached 3, clock := 200\<rparr>)) = Attached 3
   \<and> clock ((step studio DEFAULT_CONFIG ^^ 3) (VolumeMonitor_start 0\<lparr>pc := Attached 3, clock := 200\<rparr>)) = 500
   \<and> samples (trace ((step studio DEFAULT_CONFIG ^^ 3) (VolumeMonitor_start 0\<lparr>pc := Attached 3, clock := 200\<rparr>)))
       = [0.0, 0.0, 0.0]"
proof -
  have h: "pc (VolumeMonitor_start 0\<lparr>pc := Attached 3, clock := 200\<rparr>) = Attached 3"
    "running (VolumeMonitor_start 0\<lparr>pc := Attached 3, clock := 200\<rparr>)"
    by (simp_all add: VolumeMonitor_start_def)
  have c: "clock (VolumeMonitor_start 0\<lparr>pc := Attached 3, clock := 200\<rparr>) = 200"
    "trace (VolumeMonitor_start 0\<lparr>pc := Attached 3, clock := 200\<rparr>) = [CoInitialize]"
    by (simp_all add: VolumeMonitor_start_def)
  have g: "GetPeakValue studio 3 200 = Inl ''session ended''"
    by (simp add: studio_def)
  have f: "\<forall>i<3. \<exists>exc. GetPeakValue studio 3 (clock (VolumeMonitor_start 0\<lparr>pc := Attached 3, clock := 200\<rparr>) + 100 * i) = Inl exc"
    by (simp add: studio_def c)
  note w = attached_read_failure [OF h, of studio DEFAULT_CONFIG]
  from w g have "step studio DEFAULT_CONFIG (VolumeMonitor_start 0\<lparr>pc := Attached 3, clock := 200\<rparr>)
       = (VolumeMonitor_start 0\<lparr>pc := Attached 3, clock := 200\<rparr>)
           \<lparr>trace := trace (VolumeMonitor_start 0\<lparr>pc := Attached 3, clock := 200\<rparr>)
                @ [Print (''Error fetching volume: '' @ ''session ended''), Callback 0.0, Sleep 100],
             clock := clock (VolumeMonitor_start 0\<lparr>pc := Attached 3, clock := 200\<rparr>) + 100\<rparr>"
    by (simp add: c)
  moreover from w have "pc ((step studio DEFAULT_CONFIG ^^ 3) (VolumeMonitor_start 0\<lparr>pc := Attached 3, clock := 200\<rparr>)) = Attached 3"
    "clock ((step studio DEFAULT_CONFIG ^^ 3) (VolumeMonitor_start 0\<lparr>pc := Attached 3, clock := 200\<rparr>))
       = clock (VolumeMonitor_start 0\<lparr>pc := Attached 3, clock := 200\<rparr>) + 100 * 3"
    by blast+
  moreover from w f have "samples (trace ((step studio DEFAULT_CONFIG ^^ 3) (VolumeMonitor_start 0\<lparr>pc := Attached 3, clock := 200\<rparr>)))
       = samples (trace (VolumeMonitor_start 0\<lparr>pc := Attached 3, clock := 200\<rparr>)) @ replicate 3 0.0"
    by blast
  ultimately show ?thesis using h g
    by (simp add: c VolumeMonitor_start_def numeral_3_eq_3)
qed

lemma run_until_searching_absent:
  assumes "pc m = Searching" "running m" "find_target au cfg (GetAllSessions au (clock m)) = None"
    and "clock m \<le> ts" "ts < clock m + 15000"
  shows "run_until au cfg ts m = step au cfg m"
proof -
  have "pc m \<noteq> Stopped" using assms(1) by simp
  from run_until_step [OF this assms(4), of au cfg]
  show ?thesis
    using assms(5) by (simp add: step_searching_absent [OF assms(1-3)] run_until_asleep)
qed

lemma no_target_asleep:
  assumes "ts < 15000"
  shows "run_until no_target DEFAULT_CONFIG ts (VolumeMonitor_start 0)
     = \<lparr>running = True, pc = Searching, clock = 15000,
        trace = [CoInitialize,
                 Print ''Searching for target application...'',
                 Print ''Error: EDCoPilot.exe not found. Retrying in 15 seconds...'',
                 Callback 0, Sleep 15000]\<rparr>"
proof -
  have h: "pc (VolumeMonitor_start 0) = Searching" "running (VolumeMonitor_start 0)"
    "find_target no_target DEFAULT_CONFIG (GetAllSessions no_target (clock (VolumeMonitor_start 0))) = None"
    "clock (VolumeMonitor_start 0) \<le> ts" "ts < clock (VolumeMonitor_start 0) + 15000"
    using assms by (simp_all add: VolumeMonitor_start_def find_target_no_target)
  show ?thesis
    unfolding run_until_searching_absent [OF h] step_searching_absent [OF h(1-3)]
    by (simp add: VolumeMonitor_start_def DEFAULT_CONFIG_def)
qed

text \<open>
  Claim C2, as the specification states it, fails. The monitor starts at instant 0 with the
  target application absent, so it sleeps from 0 to 15000. \<open>stop\<close> is called at
  instant 1. At instant 501, and still at instant 14999, \<open>run\<close> has not returned; it
  returns at instant 15000, when the sleep is over.
\<close>

theorem stop_interrupts_wait_counterexample:
  "pc (run_until no_target DEFAULT_CONFIG 501
         (stop (run_until no_target DEFAULT_CONFIG 1 (VolumeMonitor_start 0)))) = Searching
   \<and> pc (run_until no_target DEFAULT_CONFIG 14999
         (stop (run_until no_target DEFAULT_CONFIG 1 (VolumeMonitor_start 0)))) = Searching
   \<and> pc (run_until no_target DEFAULT_CONFIG 15000
         (stop (run_until no_target DEFAULT_CONFIG 1 (VolumeMonitor_start 0)))) = Stopped
   \<and> clock (run_until no_target DEFAULT_CONFIG 15000
         (stop (run_until no_target DEFAULT_CONFIG 1 (VolumeMonitor_start 0)))) = 15000"
  by (simp add: no_target_asleep stop_def run_until_asleep run_until_not_running)

text \<open>
  Claim C2, amended. Let the monitor be at the outer loop test at instant \<open>clock m\<close>
  with the target application absent, and let \<open>stop\<close> be called at an instant \<open>ts\<close>
  during the 15 s sleep that follows. Then the sleep runs to its end: at every instant
  before \<open>clock m + 15000\<close> the thread is still asleep inside \<open>run\<close>, and at
  \<open>clock m + 15000\<close> it finds \<open>running\<close> false and leaves \<open>run\<close> through the
  \<open>finally\<close> block, without another search and without another call of the callback.
\<close>

theorem stop_takes_effect_after_wait:
  assumes "pc m = Searching" and "running m"
    and "find_target au cfg (GetAllSessions au (clock m)) = None"
    and "clock m \<le> ts" and "ts < clock m + 15000"
  shows "(\<forall>d. ts \<le> d \<and> d < clock m + 15000 \<longrightarrow>
            run_until au cfg d (stop (run_until au cfg ts m)) = stop (run_until au cfg ts m)
          \<and> pc (stop (run_until au cfg ts m)) = Searching)
    \<and> (\<forall>d. clock m + 15000 \<le> d \<longrightarrow>
            pc (run_until au cfg d (stop (run_until au cfg ts m))) = Stopped
          \<and> clock (run_until au cfg d (stop (run_until au cfg ts m))) = clock m + 15000
          \<and> trace (run_until au cfg d (stop (run_until au cfg ts m)))
              = trace (run_until au cfg ts m) @ [CoUninitialize]
          \<and> samples (trace (run_until au cfg d (stop (run_until au cfg ts m))))
              = samples (trace m) @ [0.0])"
proof -
  let ?m1 = "run_until au cfg ts m"
  have m1: "?m1 = m\<lparr>trace := trace m @
          [Print ''Searching for target application...'',
           Print (''Error: '' @ TARGET_APP cfg @ '' not found. Retrying in 15 seconds...''),
           Callback 0, Sleep 15000],
       clock := clock m + 15000\<rparr>"
    using run_until_searching_absent [OF assms] step_searching_absent [OF assms(1-3)] by simp
  have p: "pc (stop ?m1) = Searching" "clock (stop ?m1) = clock m + 15000" "\<not> running (stop ?m1)"
    "trace (stop ?m1) = trace ?m1"
    by (simp_all add: m1 stop_def assms(1))
  have early: "run_until au cfg d (stop ?m1) = stop ?m1" if "d < clock m + 15000" for d
    using that by (intro run_until_asleep) (simp add: p)
  have late: "run_until au cfg d (stop ?m1)
      = (stop ?m1)\<lparr>trace := trace (stop ?m1) @ [CoUninitialize], pc := Stopped\<rparr>"
    if "clock m + 15000 \<le> d" for d
    using that by (intro run_until_not_running) (simp_all add: p)
  have s: "samples (trace ?m1) = samples (trace m) @ [0.0]"
    by (simp add: m1 samples_append)
  show ?thesis
    using early p(1) by (auto simp: late p s samples_append)
qed

theorem stop_takes_effect_after_wait_witness:
  "pc (VolumeMonitor_start 0) = Searching
   \<and> running (VolumeMonitor_start 0)
   \<and> find_target no_target DEFAULT_CONFIG (GetAllSessions no_target (clock (VolumeMonitor_start 0))) = None
   \<and> clock (VolumeMonitor_start 0) \<le> 1
   \<and> 1 < clock (VolumeMonitor_start 0) + 15000
   \<and> pc (stop (run_until no_target DEFAULT_CONFIG 1 (VolumeMonitor_start 0))) = Searching
   \<and> run_until no_target DEFAULT_CONFIG 2001 (stop (run_until no_target DEFAULT_CONFIG 1 (VolumeMonitor_start 0)))
       = stop (run_until no_target DEFAULT_CONFIG 1 (VolumeMonitor_start 0))
   \<and> pc (run_until no_target DEFAULT_CONFIG 15000 (stop (run_until no_target DEFAULT_CONFIG 1 (VolumeMonitor_start 0))))
       = Stopped
   \<and> clock (run_until no_target DEFAULT_CONFIG 15000 (stop (run_until no_target DEFAULT_CONFIG 1 (VolumeMonitor_start 0))))
       = 15000
   \<and> samples (trace (run_until no_target DEFAULT_CONFIG 15000 (stop (run_until no_target DEFAULT_CONFIG 1 (VolumeMonitor_start 0)))))
       = [0.0]"
proof -
  have h: "pc (VolumeMonitor_start 0) = Searching" "running (VolumeMonitor_start 0)"
    "find_target no_target DEFAULT_CONFIG (GetAllSessions no_target (clock (VolumeMonitor_start 0))) = None"
    "clock (VolumeMonitor_start 0) \<le> 1" "1 < clock (VolumeMonitor_start 0) + 15000"
    by (simp_all add: VolumeMonitor_start_def find_target_no_target)
  have c: "clock (VolumeMonitor_start 0) = 0" "samples (trace (VolumeMonitor_start 0)) = []"
    by (simp_all add: VolumeMonitor_start_def)
  note w = stop_takes_effect_after_wait [OF h]
  from w have
    "(1::nat) \<le> 2001 \<and> 2001 < clock (VolumeMonitor_start 0) + 15000 \<longrightarrow>
       run_until no_target DEFAULT_CONFIG 2001 (stop (run_until no_target DEFAULT_CONFIG 1 (VolumeMonitor_start 0)))
         = stop (run_until no_target DEFAULT_CONFIG 1 (VolumeMonitor_start 0))
       \<and> pc (stop (run_until no_target DEFAULT_CONFIG 1 (VolumeMonitor_start 0))) = Searching"
    by blast
  moreover from w have
    "clock (VolumeMonitor_start 0) + 15000 \<le> 15000 \<longrightarrow>
       pc (run_until no_target DEFAULT_CONFIG 15000 (stop (run_until no_target DEFAULT_CONFIG 1 (VolumeMonitor_start 0)))) = Stopped
     \<and> clock (run_until no_target DEFAULT_CONFIG 15000 (stop (run_until no_target DEFAULT_CONFIG 1 (VolumeMonitor_start 0))))
         = clock (VolumeMonitor_start 0) + 15000
     \<and> samples (trace (run_until no_target DEFAULT_CONFIG 15000 (stop (run_until no_target DEFAULT_CONFIG 1 (VolumeMonitor_start 0)))))
         = samples (trace (VolumeMonitor_start 0)) @ [0.0]"
    by blast
  ultimately show ?thesis using h by (simp add: c)
qed

lemma join_time: "now \<le> snd (join au cfg now timeout m) \<and> snd (join au cfg now timeout m) \<le> now + timeout"
  by (simp add: join_def Let_def)

text \<open>
  Claim C8. \<open>stop\<close> does nothing but clear \<open>running\<close>: it neither waits nor touches
  the thread otherwise. \<open>closeEvent\<close> at instant \<open>now\<close> prints its message, calls
  \<open>stop\<close>, waits in \<open>join\<close> and accepts the event. It returns between \<open>now\<close> and
  \<open>now + 2000\<close> with the event accepted whether the thread has ended or not: when the
  thread's next loop test falls within the 2 s the thread has ended and the handler goes
  on at that instant, otherwise the handler goes on at \<open>now + 2000\<close> and the thread is
  as it was, apart from \<open>running\<close>.
\<close>

theorem closeEvent_bounded_wait:
  "stop m = m\<lparr>running := False\<rparr>
   \<and> events (fst (closeEvent au cfg now a)) = events a @ [Say ''Shutting down application...'', Accept]
   \<and> \<not> running (monitor (fst (closeEvent au cfg now a)))
   \<and> now \<le> snd (closeEvent au cfg now a)
   \<and> snd (closeEvent au cfg now a) \<le> now + 2000
   \<and> (pc (monitor a) \<noteq> Stopped \<and> clock (monitor a) \<le> now + 2000 \<longrightarrow>
        pc (monitor (fst (closeEvent au cfg now a))) = Stopped
      \<and> snd (closeEvent au cfg now a) = max now (clock (monitor a)))
   \<and> (pc (monitor a) \<noteq> Stopped \<and> now + 2000 < clock (monitor a) \<longrightarrow>
        monitor (fst (closeEvent au cfg now a)) = stop (monitor a)
      \<and> pc (monitor (fst (closeEvent au cfg now a))) \<noteq> Stopped
      \<and> snd (closeEvent au cfg now a) = now + 2000)"
proof -
  have ce: "closeEvent au cfg now a =
      (a\<lparr>monitor := fst (join au cfg now 2000 (stop (monitor a))),
         events := events a @ [Say ''Shutting down application...'', Accept]\<rparr>,
       snd (join au cfg now 2000 (stop (monitor a))))"
    by (simp add: closeEvent_def Let_def case_prod_beta)
  have j: "fst (join au cfg now 2000 (stop (monitor a))) = run_until au cfg (now + 2000) (stop (monitor a))"
    by (simp add: join_def Let_def)
  have r: "\<not> running (run_until au cfg (now + 2000) (stop (monitor a)))"
    by (simp add: running_run_until stop_def)
  have inside: "run_until au cfg (now + 2000) (stop (monitor a))
      = (stop (monitor a))\<lparr>trace := trace (stop (monitor a)) @ [CoUninitialize], pc := Stopped\<rparr>"
    if "pc (monitor a) \<noteq> Stopped" "clock (monitor a) \<le> now + 2000"
    using that by (intro run_until_not_running) (simp_all add: stop_def)
  have outside: "run_until au cfg (now + 2000) (stop (monitor a)) = stop (monitor a)"
    if "now + 2000 < clock (monitor a)"
    using that by (intro run_until_asleep) (simp add: stop_def)
  have t_inside: "snd (join au cfg now 2000 (stop (monitor a))) = max now (clock (monitor a))"
    if "pc (monitor a) \<noteq> Stopped" "clock (monitor a) \<le> now + 2000"
    unfolding join_def Let_def inside [OF that] using that by (simp add: stop_def)
  have t_outside: "snd (join au cfg now 2000 (stop (monitor a))) = now + 2000"
    if "now + 2000 < clock (monitor a)"
    unfolding join_def Let_def outside [OF that] using that by (simp add: stop_def)
  have c1: "stop m = m\<lparr>running := False\<rparr>" by (simp add: stop_def)
  have pcs: "pc (stop (monitor a)) = pc (monitor a)" by (simp add: stop_def)
  have c2: "events (fst (closeEvent au cfg now a)) = events a @ [Say ''Shutting down application...'', Accept]"
    by (simp add: ce)
  have c3: "\<not> running (monitor (fst (closeEvent au cfg now a)))"
    using r by (simp add: ce j)
  have c4: "now \<le> snd (closeEvent au cfg now a)" "snd (closeEvent au cfg now a) \<le> now + 2000"
    using join_time [of now au cfg 2000 "stop (monitor a)"] by (simp_all add: ce)
  have c5: "pc (monitor (fst (closeEvent au cfg now a))) = Stopped
      \<and> snd (closeEvent au cfg now a) = max now (clock (monitor a))"
    if "pc (monitor a) \<noteq> Stopped \<and> clock (monitor a) \<le> now + 2000"
    using that t_inside inside by (simp add: ce j)
  have c6: "monitor (fst (closeEvent au cfg now a)) = stop (monitor a)
      \<and> pc (monitor (fst (closeEvent au cfg now a))) \<noteq> Stopped
      \<and> snd (closeEvent au cfg now a) = now + 2000"
    if "pc (monitor a) \<noteq> Stopped \<and> now + 2000 < clock (monitor a)"
    using that t_outside outside pcs by (simp add: ce j)
  from c1 c2 c3 c4 c5 c6 show ?thesis by blast
qed

theorem closeEvent_bounded_wait_witness:
  "pc (monitor (shown\<lparr>monitor := run_until no_target DEFAULT_CONFIG 1 (VolumeMonitor_start 0)\<rparr>)) \<noteq> Stopped
   \<and> 1 + 2000 < clock (monitor (shown\<lparr>monitor := run_until no_target DEFAULT_CONFIG 1 (VolumeMonitor_start 0)\<rparr>))
   \<and> pc (monitor (fst (closeEvent no_target DEFAULT_CONFIG 1
        (shown\<lparr>monitor := run_until no_target DEFAULT_CONFIG 1 (VolumeMonitor_start 0)\<rparr>)))) \<noteq> Stopped
   \<and> snd (closeEvent no_target DEFAULT_CONFIG 1
        (shown\<lparr>monitor := run_until no_target DEFAULT_CONFIG 1 (VolumeMonitor_start 0)\<rparr>)) = 1 + 2000
   \<and> last (events (fst (closeEvent no_target DEFAULT_CONFIG 1
        (shown\<lparr>monitor := run_until no_target DEFAULT_CONFIG 1 (VolumeMonitor_start 0)\<rparr>)))) = Accept
   \<and> pc (monitor shown) \<noteq> Stopped
   \<and> clock (monitor shown) \<le> 0 + 2000
   \<and> pc (monitor (fst (closeEvent no_target DEFAULT_CONFIG 0 shown))) = Stopped
   \<and> snd (closeEvent no_target DEFAULT_CONFIG 0 shown) = 0"
proof -
  have h: "pc (monitor (shown\<lparr>monitor := run_until no_target DEFAULT_CONFIG 1 (VolumeMonitor_start 0)\<rparr>)) \<noteq> Stopped"
    "1 + 2000 < clock (monitor (shown\<lparr>monitor := run_until no_target DEFAULT_CONFIG 1 (VolumeMonitor_start 0)\<rparr>))"
    by (simp_all add: no_target_asleep)
  have g: "pc (monitor shown) \<noteq> Stopped" "clock (monitor shown) \<le> 0 + 2000" "clock (monitor shown) = 0"
    by (simp_all add: shown_def)
  note w = closeEvent_bounded_wait
    [of "monitor shown" no_target DEFAULT_CONFIG 1
        "shown\<lparr>monitor := run_until no_target DEFAULT_CONFIG 1 (VolumeMonitor_start 0)\<rparr>"]
  note v = closeEvent_bounded_wait [of "monitor shown" no_target DEFAULT_CONFIG 0 shown]
  from w h have
    "pc (monitor (fst (closeEvent no_target DEFAULT_CONFIG 1
        (shown\<lparr>monitor := run_until no_target DEFAULT_CONFIG 1 (VolumeMonitor_start 0)\<rparr>)))) \<noteq> Stopped"
    "snd (closeEvent no_target DEFAULT_CONFIG 1
        (shown\<lparr>monitor := run_until no_target DEFAULT_CONFIG 1 (VolumeMonitor_start 0)\<rparr>)) = 1 + 2000"
    "events (fst (closeEvent no_target DEFAULT_CONFIG 1
        (shown\<lparr>monitor := run_until no_target DEFAULT_CONFIG 1 (VolumeMonitor_start 0)\<rparr>)))
      = events (shown\<lparr>monitor := run_until no_target DEFAULT_CONFIG 1 (VolumeMonitor_start 0)\<rparr>)
          @ [Say ''Shutting down application...'', Accept]"
    by blast+
  moreover from v g(1,2) have
    "pc (monitor (fst (closeEvent no_target DEFAULT_CONFIG 0 shown))) = Stopped"
    "snd (closeEvent no_target DEFAULT_CONFIG 0 shown) = max 0 (clock (monitor shown))"
    by blast+
  ultimately show ?thesis using h g by simp
qed

section \<open>The window at the end of startup\<close>

lemma current_image_App_init:
  assumes "App_init au cfg exists now st = Inr a"
  shows "current_image a = Some (if VOLUME_THRESHOLD cfg < 0 then image_high_orig else image_low_orig)"
    and "scale a = 1"
  using assms
  by (auto simp: App_init_def Let_def current_image_update_image scale_update_image
      foldl_update_image_scales split: if_splits)

lemma monitor_update_image: "monitor (update_image cfg v a) = monitor a"
  by (simp add: update_image_def resize_image_def Let_def)

lemma monitor_foldl_update_image: "monitor (foldl (\<lambda>w v. update_image cfg v w) a vs) = monitor a"
  by (induction vs arbitrary: a) (simp_all add: monitor_update_image)

lemma monitor_App_init:
  assumes "App_init au cfg exists now (Passes n) = Inr a"
  shows "monitor a = (step au cfg ^^ n) (VolumeMonitor_start now)"
  using assms
  by (auto simp: App_init_def Let_def monitor_update_image monitor_foldl_update_image
      split: if_splits)

lemma studio_attached_silently:
  "samples (trace ((step studio DEFAULT_CONFIG ^^ 1) (VolumeMonitor_start 0))) = []"
proof -
  have h: "pc (VolumeMonitor_start 0) = Searching" "running (VolumeMonitor_start 0)"
    by (simp_all add: VolumeMonitor_start_def)
  from step_searching_found [OF h find_target_studio]
  show ?thesis by (simp add: VolumeMonitor_start_def)
qed

text \<open>
  Claim C10, as the specification states it, fails. With the threshold \<open>-0.5\<close> in the
  configuration, both image files present and no sample from the monitor before, the
  sample 0.0 of \<open>App.__init__\<close> is above the threshold: the window starts with the
  high-volume image.
\<close>

theorem App_init_shows_low_counterexample:
  "App_init no_target (DEFAULT_CONFIG\<lparr>VOLUME_THRESHOLD := - 0.5\<rparr>) every_file 0 (Passes 0)
     = Inr (shown\<lparr>current_image := Some image_high_orig,
                 events := [QPixmap ''640px-Neurofumo.png'', QPixmap ''640px-Neurofumodark.png'',
                            QTimer_start 16, Monitor_start, SetPixmap image_high_orig 1]\<rparr>)"
  by (simp add: App_init_def DEFAULT_CONFIG_def shown_def update_image_def resize_image_def
      VolumeMonitor_start_def every_file_def)

text \<open>
  Claim C10, amended. Let both image files exist, and let the monitor, however many passes
  it has made, not have called the callback when \<open>App.__init__\<close> reaches its last
  statement. That statement hands the sample 0.0 to \<open>update_image\<close> while no image is
  selected, so the image is swapped and rendered: the window leaves \<open>__init__\<close>
  showing, at scale 1.0, the image that \<open>update_image\<close> selects for 0.0. This is the
  low-volume image when the threshold is not negative and the high-volume image when it is
  negative. Whatever the monitor has done before, the window leaves \<open>__init__\<close> with
  that image selected and scale 1.0.
\<close>

theorem App_init_shows_image_for_zero:
  assumes "exists (IMAGE_HIGH_VOLUME cfg)" and "exists (IMAGE_LOW_VOLUME cfg)"
  shows "(\<forall>n. samples (trace ((step au cfg ^^ n) (VolumeMonitor_start now))) = [] \<longrightarrow>
          (\<exists>a. App_init au cfg exists now (Passes n) = Inr a
            \<and> current_image a = Some (if VOLUME_THRESHOLD cfg < 0 then image_high_orig else image_low_orig)
            \<and> scale a = 1.0
            \<and> samples (trace (monitor a)) = []
            \<and> events a = [QPixmap (IMAGE_HIGH_VOLUME cfg), QPixmap (IMAGE_LOW_VOLUME cfg),
                           QTimer_start 16, Monitor_start,
                           SetPixmap (if VOLUME_THRESHOLD cfg < 0 then image_high_orig else image_low_orig) 1.0]))
    \<and> (\<exists>a. App_init au cfg exists now st = Inr a
          \<and> current_image a = Some (if VOLUME_THRESHOLD cfg < 0 then image_high_orig else image_low_orig)
          \<and> scale a = 1.0)"
proof (intro conjI allI impI)
  fix n
  assume "samples (trace ((step au cfg ^^ n) (VolumeMonitor_start now))) = []"
  with assms
  show "\<exists>a. App_init au cfg exists now (Passes n) = Inr a
          \<and> current_image a = Some (if VOLUME_THRESHOLD cfg < 0 then image_high_orig else image_low_orig)
          \<and> scale a = 1.0
          \<and> samples (trace (monitor a)) = []
          \<and> events a = [QPixmap (IMAGE_HIGH_VOLUME cfg), QPixmap (IMAGE_LOW_VOLUME cfg),
                         QTimer_start 16, Monitor_start,
                         SetPixmap (if VOLUME_THRESHOLD cfg < 0 then image_high_orig else image_low_orig) 1.0]"
    by (simp add: App_init_def Let_def update_image_def resize_image_def)
next
  from assms obtain a where a: "App_init au cfg exists now st = Inr a"
    by (auto simp: App_init_def Let_def)
  from current_image_App_init [OF a] a
  show "\<exists>a. App_init au cfg exists now st = Inr a
          \<and> current_image a = Some (if VOLUME_THRESHOLD cfg < 0 then image_high_orig else image_low_orig)
          \<and> scale a = 1.0"
    by simp
qed

theorem App_init_shows_image_for_zero_witness:
  "every_file (IMAGE_HIGH_VOLUME DEFAULT_CONFIG)
   \<and> every_file (IMAGE_LOW_VOLUME DEFAULT_CONFIG)
   \<and> samples (trace ((step no_target DEFAULT_CONFIG ^^ 0) (VolumeMonitor_start 0))) = []
   \<and> App_init no_target DEFAULT_CONFIG every_file 0 (Passes 0) = Inr shown
   \<and> current_image shown = Some image_low_orig
   \<and> scale shown = 1.0
   \<and> last (events shown) = SetPixmap image_low_orig 1.0
   \<and> samples (trace ((step studio DEFAULT_CONFIG ^^ 1) (VolumeMonitor_start 0))) = []
   \<and> (\<exists>a. App_init studio DEFAULT_CONFIG every_file 0 (Passes 1) = Inr a
         \<and> current_image a = Some image_low_orig
         \<and> pc (monitor a) = Attached 3
         \<and> last (events a) = SetPixmap image_low_orig 1.0)"
proof -
  have h: "every_file (IMAGE_HIGH_VOLUME DEFAULT_CONFIG)" "every_file (IMAGE_LOW_VOLUME DEFAULT_CONFIG)"
    by (simp_all add: every_file_def)
  have t: "\<not> VOLUME_THRESHOLD DEFAULT_CONFIG < 0" by (simp add: DEFAULT_CONFIG_def)
  have q0: "samples (trace ((step no_target DEFAULT_CONFIG ^^ 0) (VolumeMonitor_start 0))) = []"
    by (simp add: VolumeMonitor_start_def)
  note q1 = studio_attached_silently
  from App_init_shows_image_for_zero [of every_file DEFAULT_CONFIG no_target 0 "Passes 0", OF h] q0
  obtain a where a: "App_init no_target DEFAULT_CONFIG every_file 0 (Passes 0) = Inr a"
    "current_image a = Some (if VOLUME_THRESHOLD DEFAULT_CONFIG < 0 then image_high_orig else image_low_orig)"
    "scale a = 1.0"
    "events a = [QPixmap (IMAGE_HIGH_VOLUME DEFAULT_CONFIG), QPixmap (IMAGE_LOW_VOLUME DEFAULT_CONFIG),
                 QTimer_start 16, Monitor_start,
                 SetPixmap (if VOLUME_THRESHOLD DEFAULT_CONFIG < 0 then image_high_orig else image_low_orig) 1.0]"
    by blast
  from a(1) App_init_default have s: "a = shown" by simp
  from App_init_shows_image_for_zero [of every_file DEFAULT_CONFIG studio 0 "Passes 0", OF h] q1
  obtain b where b: "App_init studio DEFAULT_CONFIG every_file 0 (Passes 1) = Inr b"
    "current_image b = Some (if VOLUME_THRESHOLD DEFAULT_CONFIG < 0 then image_high_orig else image_low_orig)"
    "events b = [QPixmap (IMAGE_HIGH_VOLUME DEFAULT_CONFIG), QPixmap (IMAGE_LOW_VOLUME DEFAULT_CONFIG),
                 QTimer_start 16, Monitor_start,
                 SetPixmap (if VOLUME_THRESHOLD DEFAULT_CONFIG < 0 then image_high_orig else image_low_orig) 1.0]"
    by blast
  have hs: "pc (VolumeMonitor_start 0) = Searching" "running (VolumeMonitor_start 0)"
    by (simp_all add: VolumeMonitor_start_def)
  have "monitor b = (step studio DEFAULT_CONFIG ^^ 1) (VolumeMonitor_start 0)"
    by (rule monitor_App_init [OF b(1)])
  then have pb: "pc (monitor b) = Attached 3"
    using step_searching_found [OF hs find_target_studio] by simp
  have first: "every_file (IMAGE_HIGH_VOLUME DEFAULT_CONFIG)
   \<and> every_file (IMAGE_LOW_VOLUME DEFAULT_CONFIG)
   \<and> samples (trace ((step no_target DEFAULT_CONFIG ^^ 0) (VolumeMonitor_start 0))) = []
   \<and> App_init no_target DEFAULT_CONFIG every_file 0 (Passes 0) = Inr shown
   \<and> current_image shown = Some image_low_orig
   \<and> scale shown = 1.0
   \<and> last (events shown) = SetPixmap image_low_orig 1.0"
    using a t h q0 App_init_default unfolding s by simp
  have second: "\<exists>a. App_init studio DEFAULT_CONFIG every_file 0 (Passes 1) = Inr a
         \<and> current_image a = Some image_low_orig
         \<and> pc (monitor a) = Attached 3
         \<and> last (events a) = SetPixmap image_low_orig 1.0"
    using b t pb by simp
  from first q1 second show ?thesis by blast
qed

end
